theory Spec2Isabelle
  imports Complex_Main
begin

section \<open>Values of the configuration document\<close>

text \<open>
  The configuration file is parsed by \<^verbatim>\<open>yaml.load\<close> into plain JavaScript values.
  A number is an IEEE double: a finite value (a real here; the two bounds the code compares
  with, 20 and 86400, are doubles, so comparing the real is comparing the double), a NaN
  (YAML \<^verbatim>\<open>.nan\<close>) or an infinity (YAML \<^verbatim>\<open>.inf\<close>). A mapping is a list of key/value pairs
  read with \<open>map_of\<close>; its values are data, never functions. \<^verbatim>\<open>undefined\<close> is not a value
  of a parsed document: a property that is absent reads as \<open>None\<close>.
\<close>

datatype jsnum = Fin real | NaN | PosInf | NegInf

datatype jsval =
    JNull
  | JBool bool
  | JNum jsnum
  | JStr string
  | JArr "jsval list"
  | JObj "(string \<times> jsval) list"

text \<open>An exception of the source: its constructor name and its \<^verbatim>\<open>message\<close>.\<close>

datatype exn = TypeError string | Error string

fun message :: "exn \<Rightarrow> string" where
  "message (TypeError m) = m"
| "message (Error m) = m"

text \<open>
  The parts of the language runtime that the module relies on and that are not code of the
  repository, each a total function in JavaScript: the number that a string converts to, the
  text of a number, \<^verbatim>\<open>JSON.stringify\<close> of a parsed value. The last field stands for an
  unusual document only, one whose \<^verbatim>\<open>monitors\<close> is a mapping with a \<^verbatim>\<open>length\<close> property of
  its own: it gives the entries \<^verbatim>\<open>m[0]\<close> .. \<^verbatim>\<open>m[m.length - 1]\<close> that the validation loop
  visits (an absent entry as \<^verbatim>\<open>null\<close>: reading a property of either throws a TypeError), or
  the exception thrown when that length is put into the log line. Every theorem below holds
  for each such runtime.
\<close>

record runtime =
  StringToNumber :: "string \<Rightarrow> jsnum"
  Number_toString :: "jsnum \<Rightarrow> string"
  JSON_stringify :: "jsval \<Rightarrow> string"
  array_like :: "(string \<times> jsval) list \<Rightarrow> exn + jsval list"

text \<open>Sequencing of steps that may throw.\<close>

definition and_then :: "exn + 'a \<Rightarrow> ('a \<Rightarrow> exn + 'b) \<Rightarrow> exn + 'b" where
  "and_then x f = (case x of Inl e \<Rightarrow> Inl e | Inr a \<Rightarrow> f a)"

fun truthy :: "jsval \<Rightarrow> bool" where
  "truthy JNull = False"
| "truthy (JBool b) = b"
| "truthy (JNum (Fin r)) = (r \<noteq> 0)"
| "truthy (JNum NaN) = False"
| "truthy (JNum PosInf) = True"
| "truthy (JNum NegInf) = True"
| "truthy (JStr s) = (s \<noteq> [])"
| "truthy (JArr xs) = True"
| "truthy (JObj kvs) = True"

text \<open>\<^verbatim>\<open>!x\<close> for a property read \<open>x\<close> that may be \<^verbatim>\<open>undefined\<close>.\<close>

fun falsy :: "jsval option \<Rightarrow> bool" where
  "falsy None = True"
| "falsy (Some v) = (\<not> truthy v)"

text \<open>\<^verbatim>\<open>Array.prototype.join\<close> with a comma, over the texts of the elements; the first
  element whose conversion throws decides.\<close>

fun join_texts :: "(exn + string) list \<Rightarrow> exn + string" where
  "join_texts [] = Inr []"
| "join_texts [x] = x"
| "join_texts (x # y # ys) =
     and_then x (\<lambda>s. and_then (join_texts (y # ys)) (\<lambda>t. Inr (s @ '','' @ t)))"

text \<open>
  \<^verbatim>\<open>ToString\<close>, as a template \<^verbatim>\<open>`${v}`\<close> and a property key \<^verbatim>\<open>obj[v]\<close> apply it. A list is
  joined (\<^verbatim>\<open>null\<close> elements as the empty text). A mapping inherits \<^verbatim>\<open>toString\<close> from
  \<^verbatim>\<open>Object.prototype\<close> and reads \<^verbatim>\<open>[object Object]\<close>, unless it has a \<^verbatim>\<open>toString\<close> key of its
  own: the value under it is not callable, \<^verbatim>\<open>valueOf\<close> (its own, not callable, or the
  inherited one, which returns the mapping) gives no primitive, and the conversion throws.
\<close>

fun to_string :: "runtime \<Rightarrow> jsval \<Rightarrow> exn + string" where
  "to_string rt JNull = Inr ''null''"
| "to_string rt (JBool b) = Inr (if b then ''true'' else ''false'')"
| "to_string rt (JNum n) = Inr (Number_toString rt n)"
| "to_string rt (JStr s) = Inr s"
| "to_string rt (JArr xs) =
     join_texts (map (\<lambda>x. if x = JNull then Inr [] else to_string rt x) xs)"
| "to_string rt (JObj kvs) =
     (if ''toString'' \<in> fst ` set kvs
      then Inl (TypeError ''Cannot convert object to primitive value'')
      else Inr ''[object Object]'')"

text \<open>The text of a property read in a template: \<^verbatim>\<open>undefined\<close> when it is absent.\<close>

fun render :: "runtime \<Rightarrow> jsval option \<Rightarrow> exn + string" where
  "render rt None = Inr ''undefined''"
| "render rt (Some v) = to_string rt v"

text \<open>
  \<^verbatim>\<open>ToNumber\<close>, as \<^verbatim>\<open><\<close> and \<^verbatim>\<open>>\<close> against a number apply it. A list or a mapping is
  converted to a primitive first, which is its text (for a mapping the inherited \<^verbatim>\<open>valueOf\<close>
  is tried first and gives no primitive), and throws when that conversion throws.
\<close>

fun to_number :: "runtime \<Rightarrow> jsval \<Rightarrow> exn + jsnum" where
  "to_number rt JNull = Inr (Fin 0)"
| "to_number rt (JBool b) = Inr (Fin (if b then 1 else 0))"
| "to_number rt (JNum n) = Inr n"
| "to_number rt (JStr s) = Inr (StringToNumber rt s)"
| "to_number rt v = and_then (to_string rt v) (\<lambda>s. Inr (StringToNumber rt s))"

text \<open>\<^verbatim>\<open>n < c\<close> and \<^verbatim>\<open>n > c\<close> for a finite constant \<open>c\<close>: false whenever \<open>n\<close> is NaN.\<close>

fun num_lt :: "jsnum \<Rightarrow> real \<Rightarrow> bool" where
  "num_lt (Fin r) c = (r < c)"
| "num_lt NaN c = False"
| "num_lt PosInf c = False"
| "num_lt NegInf c = True"

fun num_gt :: "jsnum \<Rightarrow> real \<Rightarrow> bool" where
  "num_gt (Fin r) c = (r > c)"
| "num_gt NaN c = False"
| "num_gt PosInf c = True"
| "num_gt NegInf c = False"

definition js_lt :: "runtime \<Rightarrow> jsval \<Rightarrow> real \<Rightarrow> exn + bool" where
  "js_lt rt v c = and_then (to_number rt v) (\<lambda>n. Inr (num_lt n c))"

definition js_gt :: "runtime \<Rightarrow> jsval \<Rightarrow> real \<Rightarrow> exn + bool" where
  "js_gt rt v c = and_then (to_number rt v) (\<lambda>n. Inr (num_gt n c))"

text \<open>
  Reading a property of a declared definition. The definition is an element of the
  \<^verbatim>\<open>monitors\<close> list: a mapping, or by a mistake of the author of the file any other value.
  Reading a property of \<^verbatim>\<open>null\<close> throws (the validator tests this first); a scalar or a
  list has none of the properties the module reads by name.
\<close>

fun get_prop :: "jsval \<Rightarrow> string \<Rightarrow> jsval option" where
  "get_prop (JObj kvs) k = map_of kvs k"
| "get_prop v k = None"

section \<open>The tables of the module\<close>

definition REQUIRED_FIELDS_BY_TYPE :: "(string \<times> string list) list" where
  "REQUIRED_FIELDS_BY_TYPE =
    [(''http'', [''url'']),
     (''keyword'', [''url'', ''keyword'']),
     (''json-query'', [''url'', ''jsonPath'', ''expectedValue'']),
     (''ping'', [''hostname'']),
     (''port'', [''hostname'', ''port'']),
     (''dns'', [''hostname'', ''dns_resolve_server'']),
     (''push'', []),
     (''steam'', [''hostname'', ''port'']),
     (''gamedig'', [''hostname'', ''port'', ''game'']),
     (''mqtt'', [''hostname'', ''port'', ''mqttTopic'']),
     (''sqlserver'', [''databaseConnectionString'']),
     (''postgres'', [''databaseConnectionString'']),
     (''mysql'', [''databaseConnectionString'']),
     (''mongodb'', [''databaseConnectionString'']),
     (''radius'', [''hostname'', ''radiusUsername'', ''radiusPassword'', ''radiusSecret'']),
     (''redis'', [''databaseConnectionString'']),
     (''group'', []),
     (''docker'', [''docker_container'', ''docker_host'']),
     (''grpc'', [''grpcUrl'', ''grpcServiceName'', ''grpcMethod'']),
     (''real-browser'', [''url'']),
     (''snmp'', [''hostname'', ''snmpOid'']),
     (''smtp'', [''hostname'', ''port'']),
     (''rabbitmq'', [''rabbitmqNodes''])]"

text \<open>
  \<^verbatim>\<open>REQUIRED_FIELDS_BY_TYPE\<close> is an object literal, so \<^verbatim>\<open>REQUIRED_FIELDS_BY_TYPE[t]\<close> also
  finds what the object inherits from \<^verbatim>\<open>Object.prototype\<close>: a function or the prototype
  itself, each truthy and not iterable.
\<close>

definition Object_prototype_keys :: "string list" where
  "Object_prototype_keys =
    [''constructor'', ''toString'', ''toLocaleString'', ''valueOf'', ''hasOwnProperty'',
     ''isPrototypeOf'', ''propertyIsEnumerable'', ''__proto__'', ''__defineGetter__'',
     ''__defineSetter__'', ''__lookupGetter__'', ''__lookupSetter__'']"

datatype 'a lookup = Own 'a | Inherited | Missing

definition required_fields :: "string \<Rightarrow> string list lookup" where
  "required_fields k =
    (case map_of REQUIRED_FIELDS_BY_TYPE k of
       Some fs \<Rightarrow> Own fs
     | None \<Rightarrow> if k \<in> set Object_prototype_keys then Inherited else Missing)"

section \<open>validateMonitorConfig\<close>

text \<open>
  An entry of an error list. The source builds a string from a template; the entry keeps the
  template and the texts put into it: the position index, the text of the \<^verbatim>\<open>name\<close> property,
  the field name, the text of the \<^verbatim>\<open>type\<close> property, the message of a caught exception.
  Building an entry converts these properties to text, which may throw.
\<close>

datatype err =
    NameRequired nat
  | TypeRequired nat
  | UnknownType string string
  | FieldRequired string string string
  | IntervalTooLow string
  | IntervalTooHigh string
  | RetryIntervalTooLow string
  | RetryIntervalTooHigh string
  | ErrorProcessing string string
  | ErrorRemoving string string

record validation =
  valid :: bool
  errors :: "err list"

text \<open>\<^verbatim>\<open>x === undefined || x === null || x === ""\<close>\<close>

fun is_blank :: "jsval option \<Rightarrow> bool" where
  "is_blank None = True"
| "is_blank (Some JNull) = True"
| "is_blank (Some (JStr s)) = (s = [])"
| "is_blank (Some v) = False"

definition name_errors :: "jsval \<Rightarrow> nat \<Rightarrow> err list" where
  "name_errors mc index = (if falsy (get_prop mc ''name'') then [NameRequired index] else [])"

text \<open>The loop over the required fields of a known type \<open>ty\<close>.\<close>

fun field_errors :: "runtime \<Rightarrow> jsval \<Rightarrow> jsval \<Rightarrow> string list \<Rightarrow> exn + err list" where
  "field_errors rt mc ty [] = Inr []"
| "field_errors rt mc ty (field # fs) =
     (if is_blank (get_prop mc field)
      then and_then (render rt (get_prop mc ''name'')) (\<lambda>n.
           and_then (to_string rt ty) (\<lambda>t.
           and_then (field_errors rt mc ty fs) (\<lambda>es.
           Inr (FieldRequired n field t # es))))
      else field_errors rt mc ty fs)"

definition type_errors :: "runtime \<Rightarrow> jsval \<Rightarrow> nat \<Rightarrow> exn + err list" where
  "type_errors rt mc index =
     (case get_prop mc ''type'' of
        None \<Rightarrow> Inr [TypeRequired index]
      | Some ty \<Rightarrow>
          if \<not> truthy ty then Inr [TypeRequired index]
          else and_then (to_string rt ty) (\<lambda>key.
               case required_fields key of
                 Missing \<Rightarrow>
                   and_then (render rt (get_prop mc ''name'')) (\<lambda>n.
                   and_then (to_string rt ty) (\<lambda>t. Inr [UnknownType n t]))
               | Inherited \<Rightarrow> Inl (TypeError ''requiredFields is not iterable'')
               | Own fs \<Rightarrow> field_errors rt mc ty fs))"

text \<open>The two comparisons of a present interval, each followed by its template.\<close>

definition bound_errors ::
  "runtime \<Rightarrow> jsval \<Rightarrow> jsval option \<Rightarrow> (string \<Rightarrow> err) \<Rightarrow> (string \<Rightarrow> err) \<Rightarrow> exn + err list" where
  "bound_errors rt v name low high =
     and_then (js_lt rt v 20) (\<lambda>lt.
     and_then (if lt then and_then (render rt name) (\<lambda>n. Inr [low n]) else Inr []) (\<lambda>es1.
     and_then (js_gt rt v 86400) (\<lambda>gt.
     and_then (if gt then and_then (render rt name) (\<lambda>n. Inr [high n]) else Inr []) (\<lambda>es2.
     Inr (es1 @ es2)))))"

definition interval_errors :: "runtime \<Rightarrow> jsval \<Rightarrow> exn + err list" where
  "interval_errors rt mc =
     (case get_prop mc ''interval'' of
        None \<Rightarrow> Inr []
      | Some v \<Rightarrow> bound_errors rt v (get_prop mc ''name'') IntervalTooLow IntervalTooHigh)"

definition retry_interval_errors :: "runtime \<Rightarrow> jsval \<Rightarrow> exn + err list" where
  "retry_interval_errors rt mc =
     (case get_prop mc ''retryInterval'' of
        None \<Rightarrow> Inr []
      | Some v \<Rightarrow>
          bound_errors rt v (get_prop mc ''name'') RetryIntervalTooLow RetryIntervalTooHigh)"

definition validateMonitorConfig :: "runtime \<Rightarrow> jsval \<Rightarrow> nat \<Rightarrow> exn + validation" where
  "validateMonitorConfig rt mc index =
     (if mc = JNull then Inl (TypeError ''Cannot read properties of null'')
      else and_then (type_errors rt mc index) (\<lambda>tes.
           and_then (interval_errors rt mc) (\<lambda>ies.
           and_then (retry_interval_errors rt mc) (\<lambda>res.
           (let es = name_errors mc index @ tes @ ies @ res
            in Inr \<lparr>valid = (length es = 0), errors = es\<rparr>)))))"

section \<open>configToMonitorBean\<close>

definition MONITOR_DEFAULTS :: "(string \<times> jsval) list" where
  "MONITOR_DEFAULTS =
    [(''active'', JBool True),
     (''interval'', JNum (Fin 60)),
     (''retryInterval'', JNum (Fin 60)),
     (''maxretries'', JNum (Fin 0)),
     (''timeout'', JNum (Fin 48)),
     (''resendInterval'', JNum (Fin 0)),
     (''upsideDown'', JBool False),
     (''ignoreTls'', JBool False),
     (''maxredirects'', JNum (Fin 10)),
     (''accepted_statuscodes'', JArr [JStr ''200-299'']),
     (''method'', JStr ''GET''),
     (''httpBodyEncoding'', JStr ''json''),
     (''kafkaProducerBrokers'', JStr ''[]''),
     (''kafkaProducerSaslOptions'', JStr ''{}''),
     (''rabbitmqNodes'', JStr ''[]''),
     (''conditions'', JStr ''[]'')]"

definition jsonFields :: "string list" where
  "jsonFields = [''kafkaProducerBrokers'', ''kafkaProducerSaslOptions'', ''rabbitmqNodes'',
                 ''conditions'']"

text \<open>An object under construction: its own properties.\<close>

type_synonym obj = "string \<rightharpoonup> jsval"

text \<open>The key of the element at a position of a list or of a string.\<close>

definition index_key :: "runtime \<Rightarrow> nat \<Rightarrow> string" where
  "index_key rt i = Number_toString rt (Fin (real i))"

text \<open>
  The own enumerable properties that the spread \<^verbatim>\<open>...config\<close> copies: the entries of a
  mapping, the elements of a list and the characters of a string under their positions,
  nothing for the other values.
\<close>

fun own_props :: "runtime \<Rightarrow> jsval \<Rightarrow> obj" where
  "own_props rt (JObj kvs) = map_of kvs"
| "own_props rt (JArr xs) = map_of (zip (map (index_key rt) [0..<length xs]) xs)"
| "own_props rt (JStr s) =
     map_of (zip (map (index_key rt) [0..<length s]) (map (\<lambda>c. JStr [c]) s))"
| "own_props rt v = Map.empty"

definition statuscodes_json :: "runtime \<Rightarrow> obj \<Rightarrow> obj" where
  "statuscodes_json rt m =
     (case m ''accepted_statuscodes'' of
        Some (JArr xs) \<Rightarrow> m(''accepted_statuscodes_json'' \<mapsto> JStr (JSON_stringify rt (JArr xs)))
      | Some (JStr s) \<Rightarrow> m(''accepted_statuscodes_json'' \<mapsto> JStr s)
      | _ \<Rightarrow> m)"

definition json_field :: "runtime \<Rightarrow> string \<Rightarrow> obj \<Rightarrow> obj" where
  "json_field rt field m =
     (case m field of
        None \<Rightarrow> m
      | Some (JStr s) \<Rightarrow> m
      | Some v \<Rightarrow> m(field \<mapsto> JStr (JSON_stringify rt v)))"

definition user_id_val :: "nat \<Rightarrow> jsval" where
  "user_id_val userId = JNum (Fin (real userId))"

definition configToMonitorBean :: "runtime \<Rightarrow> jsval \<Rightarrow> nat \<Rightarrow> obj" where
  "configToMonitorBean rt config userId =
     (let monitor = map_of MONITOR_DEFAULTS ++ own_props rt config;
          monitor = statuscodes_json rt monitor;
          monitor = monitor(''accepted_statuscodes'' := None);
          monitor = fold (json_field rt) jsonFields monitor;
          monitor = monitor(''user_id'' \<mapsto> user_id_val userId);
          monitor = monitor(''config_managed'' \<mapsto> JBool True)
      in monitor)"

section \<open>The collaborators: store, task registry, file system\<close>

text \<open>
  A bean in memory: its id (\<open>0\<close>: none yet) and its properties, which hold the values that
  the module assigned, as assigned.
\<close>

record bean =
  bean_id :: nat
  props :: obj

definition dispense :: bean where
  "dispense = \<lparr>bean_id = 0, props = Map.empty\<rparr>"

text \<open>
  A row of the \<^verbatim>\<open>monitor\<close> table. The \<^verbatim>\<open>name\<close> column holds text or NULL, whatever was
  written; the other columns are kept as they read back.
\<close>

record row =
  row_id :: nat
  row_name :: "string option"
  row_props :: obj

text \<open>Every call the module makes on a collaborator, in order.\<close>

datatype event =
    DbFind | DbFindOne | DbStore nat | DbTrash nat | TaskStop nat | TaskStart nat

text \<open>
  What the module holds and what it acts on: its cached \<^verbatim>\<open>configFilePath\<close>, the rows of the
  table with the next id of the autoincrement, and \<^verbatim>\<open>server.monitorList\<close>. A task handle
  registered under an identity is kept as its running flag. \<open>leaked\<close> lists the identities of
  the handles that left the registry while running: they run on with nothing referring to
  them.
\<close>

record state =
  configFilePath :: "string option"
  rows :: "row list"
  next_id :: nat
  monitorList :: "nat \<rightharpoonup> bool"
  leaked :: "nat list"
  calls :: "event list"

text \<open>
  A collaborator may throw. Each of the first seven fields says whether the call throws at
  this argument, and with which message. \<open>name_text\<close> is the text that the store keeps in the
  \<^verbatim>\<open>name\<close> column for a value written there that is not a string.
\<close>

record collab =
  find_throws :: "string option"
  findOne_throws :: "jsval option \<Rightarrow> string option"
  validate_throws :: "bean \<Rightarrow> string option"
  store_throws :: "bean \<Rightarrow> string option"
  start_throws :: "bean \<Rightarrow> string option"
  stop_throws :: "nat \<Rightarrow> string option"
  trash_throws :: "row \<Rightarrow> string option"
  name_text :: "jsval \<Rightarrow> string"

text \<open>The process environment and the file system; \<open>load\<close> is \<^verbatim>\<open>readFileSync\<close> followed
  by \<^verbatim>\<open>yaml.load\<close>, whose result for an empty document is \<^verbatim>\<open>undefined\<close>.\<close>

record fsys =
  MONITORS_YAML_PATH :: "string option"
  existsSync :: "string \<Rightarrow> bool"
  load :: "string \<Rightarrow> exn + jsval option"

definition log_call :: "event \<Rightarrow> state \<Rightarrow> state" where
  "log_call e st = st\<lparr>calls := calls st @ [e]\<rparr>"

text \<open>What the \<^verbatim>\<open>name\<close> column holds after a value was written to it, and what a query
  compares the column with when the value is bound to \<^verbatim>\<open>name = ?\<close>.\<close>

fun name_column :: "collab \<Rightarrow> jsval option \<Rightarrow> string option" where
  "name_column co None = None"
| "name_column co (Some JNull) = None"
| "name_column co (Some (JStr s)) = Some s"
| "name_column co (Some v) = Some (name_text co v)"

text \<open>A boolean is stored as 0 or 1; another value is kept.\<close>

fun column_value :: "jsval \<Rightarrow> jsval" where
  "column_value (JBool b) = JNum (Fin (if b then 1 else 0))"
| "column_value v = v"

text \<open>The row that \<^verbatim>\<open>R.store\<close> writes for a bean.\<close>

definition row_of :: "collab \<Rightarrow> bean \<Rightarrow> row" where
  "row_of co b =
     \<lparr>row_id = bean_id b, row_name = name_column co (props b ''name''),
      row_props = (\<lambda>k. if k = ''name'' then None else map_option column_value (props b k))\<rparr>"

text \<open>The \<^verbatim>\<open>name\<close> property of a bean read from a row.\<close>

fun name_value :: "string option \<Rightarrow> jsval" where
  "name_value None = JNull"
| "name_value (Some s) = JStr s"

text \<open>The bean that a query returns for a row.\<close>

definition bean_of :: "row \<Rightarrow> bean" where
  "bean_of r = \<lparr>bean_id = row_id r, props = (row_props r)(''name'' \<mapsto> name_value (row_name r))\<rparr>"

text \<open>The predicate \<^verbatim>\<open>user_id = ? AND config_managed = 1\<close>.\<close>

definition is_managed :: "nat \<Rightarrow> row \<Rightarrow> bool" where
  "is_managed userId r =
     (row_props r ''user_id'' = Some (user_id_val userId) \<and>
      row_props r ''config_managed'' = Some (JNum (Fin 1)))"

text \<open>\<^verbatim>\<open>R.find("monitor", " user_id = ? AND config_managed = 1 ", [userId])\<close>; the module
  reads the id and the name of what it returns.\<close>

definition R_find :: "nat \<Rightarrow> state \<Rightarrow> row list" where
  "R_find userId st = filter (is_managed userId) (rows st)"

text \<open>\<^verbatim>\<open>R.findOne\<close> with \<^verbatim>\<open>name = ? AND user_id = ? AND config_managed = 1\<close>; a NULL never
  equals.\<close>

definition R_findOne :: "collab \<Rightarrow> jsval option \<Rightarrow> nat \<Rightarrow> state \<Rightarrow> row option" where
  "R_findOne co name userId st =
     (case name_column co name of
        None \<Rightarrow> None
      | Some s \<Rightarrow> List.find (\<lambda>r. row_name r = Some s \<and> is_managed userId r) (rows st))"

text \<open>\<^verbatim>\<open>R.store\<close>: a bean without id is inserted under the next id, which the bean in memory
  receives; another bean overwrites the row of its id.\<close>

definition R_store :: "collab \<Rightarrow> bean \<Rightarrow> state \<Rightarrow> bean \<times> state" where
  "R_store co b st =
     (if bean_id b = 0
      then (let b' = b\<lparr>bean_id := next_id st\<rparr>
            in (b', st\<lparr>rows := rows st @ [row_of co b'], next_id := Suc (next_id st)\<rparr>))
      else (b, st\<lparr>rows := map (\<lambda>r. if row_id r = bean_id b then row_of co b else r)
                                (rows st)\<rparr>))"

definition R_trash :: "row \<Rightarrow> state \<Rightarrow> state" where
  "R_trash ex st = st\<lparr>rows := filter (\<lambda>r. row_id r \<noteq> row_id ex) (rows st)\<rparr>"

text \<open>\<^verbatim>\<open>await server.monitorList[i].stop()\<close>\<close>

definition stop_task :: "collab \<Rightarrow> nat \<Rightarrow> state \<Rightarrow> string option \<times> state" where
  "stop_task co i st =
     (let st1 = log_call (TaskStop i) st
      in case stop_throws co i of
           Some m \<Rightarrow> (Some m, st1)
         | None \<Rightarrow> (None, st1\<lparr>monitorList := (monitorList st1)(i \<mapsto> False)\<rparr>))"

text \<open>\<^verbatim>\<open>server.monitorList[i] = bean\<close>: the new handle is not started yet; the handle it
  replaces is out of reach from now on.\<close>

definition register_task :: "nat \<Rightarrow> state \<Rightarrow> state" where
  "register_task i st =
     st\<lparr>monitorList := (monitorList st)(i \<mapsto> False),
        leaked := (if monitorList st i = Some True then i # leaked st else leaked st)\<rparr>"

text \<open>\<^verbatim>\<open>delete server.monitorList[i]\<close>\<close>

definition unregister_task :: "nat \<Rightarrow> state \<Rightarrow> state" where
  "unregister_task i st =
     st\<lparr>monitorList := (monitorList st)(i := None),
        leaked := (if monitorList st i = Some True then i # leaked st else leaked st)\<rparr>"

text \<open>\<^verbatim>\<open>await bean.start(server.io)\<close>\<close>

definition start_task :: "collab \<Rightarrow> bean \<Rightarrow> state \<Rightarrow> string option \<times> state" where
  "start_task co b st =
     (let st1 = log_call (TaskStart (bean_id b)) st
      in case start_throws co b of
           Some m \<Rightarrow> (Some m, st1)
         | None \<Rightarrow> (None, st1\<lparr>monitorList := (monitorList st1)(bean_id b \<mapsto> True)\<rparr>))"

text \<open>The number of tasks of an identity that run.\<close>

definition live_tasks :: "state \<Rightarrow> nat \<Rightarrow> nat" where
  "live_tasks st i = (if monitorList st i = Some True then 1 else 0) + count_list (leaked st) i"

section \<open>Reading the configuration source\<close>

text \<open>\<^verbatim>\<open>!configFilePath\<close> and the test of the environment variable: null, undefined and the
  empty string are falsy.\<close>

fun no_path :: "string option \<Rightarrow> bool" where
  "no_path None = True"
| "no_path (Some p) = (p = [])"

definition getConfigFilePath :: "fsys \<Rightarrow> state \<Rightarrow> string option \<times> state" where
  "getConfigFilePath fs st =
     (if no_path (configFilePath st)
      then (if \<not> no_path (MONITORS_YAML_PATH fs)
            then (MONITORS_YAML_PATH fs, st\<lparr>configFilePath := MONITORS_YAML_PATH fs\<rparr>)
            else (None, st))
      else (configFilePath st, st))"

definition no_monitors :: jsval where
  "no_monitors = JObj [(''monitors'', JArr [])]"

text \<open>The result is \<open>None\<close> for \<^verbatim>\<open>null\<close>.\<close>

definition readConfigFile :: "fsys \<Rightarrow> state \<Rightarrow> jsval option \<times> state" where
  "readConfigFile fs st =
     (case getConfigFilePath fs st of
        (None, st1) \<Rightarrow> (None, st1)
      | (Some filePath, st1) \<Rightarrow>
          if \<not> existsSync fs filePath then (None, st1)
          else (case load fs filePath of
                  Inl e \<Rightarrow> (None, st1)
                | Inr None \<Rightarrow> (Some no_monitors, st1)
                | Inr (Some config) \<Rightarrow>
                    if \<not> truthy config \<or> falsy (get_prop config ''monitors'')
                    then (Some no_monitors, st1)
                    else (Some config, st1)))"

section \<open>syncConfigMonitors\<close>

record result =
  added :: nat
  updated :: nat
  removed :: nat
  errors :: "err list"

definition no_result :: result where
  "no_result = \<lparr>added = 0, updated = 0, removed = 0, errors = []\<rparr>"

text \<open>\<^verbatim>\<open>config.monitors || []\<close>\<close>

definition monitors_of :: "jsval \<Rightarrow> jsval" where
  "monitors_of config =
     (case get_prop config ''monitors'' of
        None \<Rightarrow> JArr []
      | Some v \<Rightarrow> if truthy v then v else JArr [])"

text \<open>
  \<^verbatim>\<open>monitors[0]\<close> .. \<^verbatim>\<open>monitors[monitors.length - 1]\<close>, the values the validation loop
  visits: the elements of a list, the characters of a string, nothing for a value without
  \<^verbatim>\<open>length\<close>. The log line before the loop puts \<^verbatim>\<open>monitors.length\<close> into a template, which
  can throw for a mapping only.
\<close>

fun elements :: "runtime \<Rightarrow> jsval \<Rightarrow> exn + jsval list" where
  "elements rt (JArr xs) = Inr xs"
| "elements rt (JStr s) = Inr (map (\<lambda>c. JStr [c]) s)"
| "elements rt (JObj kvs) =
     (if map_of kvs ''length'' = None then Inr [] else array_like rt kvs)"
| "elements rt v = Inr []"

text \<open>The validation loop, from position \<open>i\<close> on, with the errors pushed so far.\<close>

fun validate_from :: "runtime \<Rightarrow> jsval list \<Rightarrow> nat \<Rightarrow> err list \<Rightarrow> exn + err list" where
  "validate_from rt [] i acc = Inr acc"
| "validate_from rt (m # ms) i acc =
     (case validateMonitorConfig rt m i of
        Inl e \<Rightarrow> Inl e
      | Inr validation \<Rightarrow>
          validate_from rt ms (Suc i)
            (if \<not> valid validation then acc @ validation.errors validation else acc))"

definition import_data :: "obj \<Rightarrow> bean \<Rightarrow> bean" where
  "import_data monitorData b = b\<lparr>props := props b ++ (monitorData |` (- {''id''}))\<rparr>"

text \<open>The block \<^verbatim>\<open>if (bean.active && server) { ... }\<close>; \<open>server\<close> says that the argument
  \<^verbatim>\<open>server\<close> is an object and not null. The result is the message of what was thrown.\<close>

definition start_if_active :: "collab \<Rightarrow> bool \<Rightarrow> bean \<Rightarrow> state \<Rightarrow> string option \<times> state" where
  "start_if_active co server b st =
     (if falsy (props b ''active'') \<or> \<not> server then (None, st)
      else (case (if bean_id b \<in> dom (monitorList st) then stop_task co (bean_id b) st
                  else (None, st)) of
              (Some m, st1) \<Rightarrow> (Some m, st1)
            | (None, st1) \<Rightarrow> start_task co b (register_task (bean_id b) st1)))"

text \<open>
  The \<^verbatim>\<open>try\<close> block of the loop over the declared definitions. The result holds the message
  of the exception that ended the block, if one did. The log line after the store puts
  \<^verbatim>\<open>bean.name\<close> into a template, which can throw.
\<close>

definition try_process ::
  "runtime \<Rightarrow> collab \<Rightarrow> nat \<Rightarrow> bool \<Rightarrow> jsval \<Rightarrow> state \<times> result
     \<Rightarrow> string option \<times> state \<times> result" where
  "try_process rt co userId server monitorConfig sr =
     (let (st, res) = sr;
          name = get_prop monitorConfig ''name'';
          st1 = log_call DbFindOne st
      in case findOne_throws co name of
           Some m \<Rightarrow> (Some m, st1, res)
         | None \<Rightarrow>
            (let found = (case R_findOne co name userId st1 of
                            Some r \<Rightarrow> bean_of r | None \<Rightarrow> dispense);
                 isNew = (bean_id found = 0);
                 bean = import_data (configToMonitorBean rt monitorConfig userId) found
             in case validate_throws co bean of
                  Some m \<Rightarrow> (Some m, st1, res)
                | None \<Rightarrow>
                   (let st2 = log_call (DbStore (bean_id bean)) st1
                    in case store_throws co bean of
                         Some m \<Rightarrow> (Some m, st2, res)
                       | None \<Rightarrow>
                          (let (bean, st3) = R_store co bean st2;
                               res1 = (if isNew then res\<lparr>added := added res + 1\<rparr>
                                       else res\<lparr>updated := updated res + 1\<rparr>)
                           in case render rt (props bean ''name'') of
                                Inl e \<Rightarrow> (Some (message e), st3, res1)
                              | Inr n \<Rightarrow>
                                  (case start_if_active co server bean st3 of
                                     (r, st4) \<Rightarrow> (r, st4, res1))))))"

text \<open>
  The body of the loop, with its \<^verbatim>\<open>catch\<close>: the message of the error puts
  \<^verbatim>\<open>monitorConfig.name\<close> into a template; when that throws, the exception leaves the loop and
  the function (first component).
\<close>

definition process_monitor ::
  "runtime \<Rightarrow> collab \<Rightarrow> nat \<Rightarrow> bool \<Rightarrow> jsval \<Rightarrow> state \<times> result
     \<Rightarrow> exn option \<times> state \<times> result" where
  "process_monitor rt co userId server monitorConfig sr =
     (case try_process rt co userId server monitorConfig sr of
        (None, st', res') \<Rightarrow> (None, st', res')
      | (Some m, st', res') \<Rightarrow>
          (case render rt (get_prop monitorConfig ''name'') of
             Inl e \<Rightarrow> (Some e, st', res')
           | Inr n \<Rightarrow>
               (None, st', res'\<lparr>errors := result.errors res' @ [ErrorProcessing n m]\<rparr>)))"

text \<open>The text of the name of a row in a template.\<close>

fun row_name_text :: "row \<Rightarrow> string" where
  "row_name_text r = (case row_name r of None \<Rightarrow> ''null'' | Some s \<Rightarrow> s)"

definition removing_failed :: "row \<Rightarrow> string \<Rightarrow> result \<Rightarrow> result" where
  "removing_failed existingMonitor m res =
     res\<lparr>errors := result.errors res @ [ErrorRemoving (row_name_text existingMonitor) m]\<rparr>"

text \<open>The body of the loop over the managed records found before; \<open>names\<close> is
  \<^verbatim>\<open>configMonitorNames\<close>, the declared names as declared. With \<^verbatim>\<open>server\<close> null, reading
  \<^verbatim>\<open>server.monitorList\<close> throws inside the \<^verbatim>\<open>try\<close>. The name of a row is text, so no
  template of this loop throws.\<close>

definition remove_monitor ::
  "collab \<Rightarrow> bool \<Rightarrow> jsval option list \<Rightarrow> row \<Rightarrow> state \<times> result \<Rightarrow> state \<times> result" where
  "remove_monitor co server names existingMonitor sr =
     (let (st, res) = sr
      in if Some (name_value (row_name existingMonitor)) \<in> set names then (st, res)
         else if \<not> server
         then (st, removing_failed existingMonitor ''Cannot read properties of null'' res)
         else (case (if row_id existingMonitor \<in> dom (monitorList st)
                     then (case stop_task co (row_id existingMonitor) st of
                             (Some m, st1) \<Rightarrow> (Some m, st1)
                           | (None, st1) \<Rightarrow>
                               (None, unregister_task (row_id existingMonitor) st1))
                     else (None, st)) of
                 (Some m, st1) \<Rightarrow> (st1, removing_failed existingMonitor m res)
               | (None, st1) \<Rightarrow>
                   (let st2 = log_call (DbTrash (row_id existingMonitor)) st1
                    in case trash_throws co existingMonitor of
                         Some m \<Rightarrow> (st2, removing_failed existingMonitor m res)
                       | None \<Rightarrow>
                           (R_trash existingMonitor st2, res\<lparr>removed := removed res + 1\<rparr>))))"

text \<open>The loop over the declared definitions; an exception that leaves a body ends it.\<close>

fun apply_monitors ::
  "runtime \<Rightarrow> collab \<Rightarrow> nat \<Rightarrow> bool \<Rightarrow> jsval list \<Rightarrow> state \<times> result
     \<Rightarrow> exn option \<times> state \<times> result" where
  "apply_monitors rt co userId server [] sr = (None, sr)"
| "apply_monitors rt co userId server (m # ms) sr =
     (case process_monitor rt co userId server m sr of
        (Some e, sr') \<Rightarrow> (Some e, sr')
      | (None, sr') \<Rightarrow> apply_monitors rt co userId server ms sr')"

definition remove_monitors ::
  "collab \<Rightarrow> bool \<Rightarrow> jsval option list \<Rightarrow> row list \<Rightarrow> state \<times> result \<Rightarrow> state \<times> result" where
  "remove_monitors co server names existingMonitors sr =
     fold (remove_monitor co server names) existingMonitors sr"

text \<open>
  The result is \<open>Inl\<close> when the function throws (its promise is rejected): the validation
  and \<^verbatim>\<open>R.find\<close> are outside every \<^verbatim>\<open>try\<close>, and so is \<^verbatim>\<open>monitors.map\<close>, which only a list
  has.
\<close>

definition syncConfigMonitors ::
  "runtime \<Rightarrow> collab \<Rightarrow> fsys \<Rightarrow> nat \<Rightarrow> bool \<Rightarrow> state \<Rightarrow> (exn + result) \<times> state" where
  "syncConfigMonitors rt co fs userId server st =
     (case readConfigFile fs st of
        (None, st1) \<Rightarrow> (Inr no_result, st1)
      | (Some config, st1) \<Rightarrow>
          (let monitors = monitors_of config
           in case and_then (elements rt monitors) (\<lambda>ms. validate_from rt ms 0 []) of
                Inl e \<Rightarrow> (Inl e, st1)
              | Inr errs \<Rightarrow>
                  if length errs > 0 then (Inr (no_result\<lparr>errors := errs\<rparr>), st1)
                  else (let st2 = log_call DbFind st1
                        in case find_throws co of
                             Some m \<Rightarrow> (Inl (Error m), st2)
                           | None \<Rightarrow>
                               (let existingMonitors = R_find userId st2
                                in case monitors of
                                     JArr ms \<Rightarrow>
                                       (let configMonitorNames =
                                              map (\<lambda>m. get_prop m ''name'') ms
                                        in case apply_monitors rt co userId server ms
                                                  (st2, no_result) of
                                             (Some e, st3, res) \<Rightarrow> (Inl e, st3)
                                           | (None, sr) \<Rightarrow>
                                               (case remove_monitors co server
                                                       configMonitorNames existingMonitors sr of
                                                  (st4, res) \<Rightarrow> (Inr res, st4)))
                                   | _ \<Rightarrow>
                                       (Inl (TypeError ''monitors.map is not a function''),
                                        st2)))))"

section \<open>Concrete collaborators for the examples\<close>

text \<open>A runtime for the examples; none of them depends on what its functions return.\<close>

definition rt_example :: runtime where
  "rt_example = \<lparr>StringToNumber = (\<lambda>s. NaN), Number_toString = (\<lambda>n. ''0''),
                  JSON_stringify = (\<lambda>v. ''[]''), array_like = (\<lambda>kvs. Inr [])\<rparr>"

text \<open>Collaborators that never throw.\<close>

definition co_ok :: collab where
  "co_ok = \<lparr>find_throws = None, findOne_throws = (\<lambda>n. None), validate_throws = (\<lambda>b. None),
            store_throws = (\<lambda>b. None), start_throws = (\<lambda>b. None), stop_throws = (\<lambda>i. None),
            trash_throws = (\<lambda>r. None), name_text = (\<lambda>v. ''0'')\<rparr>"

definition st_empty :: state where
  "st_empty = \<lparr>configFilePath = None, rows = [], next_id = 1, monitorList = Map.empty,
               leaked = [], calls = []\<rparr>"

definition fs_unset :: fsys where
  "fs_unset = \<lparr>MONITORS_YAML_PATH = None, existsSync = (\<lambda>p. False),
               load = (\<lambda>p. Inr None)\<rparr>"

definition fs_malformed :: fsys where
  "fs_malformed = \<lparr>MONITORS_YAML_PATH = Some ''config/monitors.yaml'', existsSync = (\<lambda>p. True),
                   load = (\<lambda>p. Inl (Error ''bad indentation of a mapping entry''))\<rparr>"

text \<open>A file system whose configuration file parses to the given document.\<close>

definition fs_with :: "jsval option \<Rightarrow> fsys" where
  "fs_with doc = \<lparr>MONITORS_YAML_PATH = Some ''config/monitors.yaml'', existsSync = (\<lambda>p. True),
                  load = (\<lambda>p. Inr doc)\<rparr>"

text \<open>A document that declares the given definitions.\<close>

definition declaring :: "jsval list \<Rightarrow> jsval" where
  "declaring ms = JObj [(''monitors'', JArr ms)]"

text \<open>Declared definitions of the examples.\<close>

definition def_A_no_url :: jsval where
  "def_A_no_url = JObj [(''name'', JStr ''A''), (''type'', JStr ''http'')]"

definition def_B_ping :: jsval where
  "def_B_ping =
     JObj [(''name'', JStr ''B''), (''type'', JStr ''ping''), (''hostname'', JStr ''1.1.1.1'')]"

definition def_inherited_type :: jsval where
  "def_inherited_type = JObj [(''name'', JStr ''x''), (''type'', JStr ''constructor'')]"







text \<open>The textual form that the storage layer expects of a structured field.\<close>

definition json_text :: "runtime \<Rightarrow> jsval option \<Rightarrow> jsval option" where
  "json_text rt x =
     (case x of
        None \<Rightarrow> None
      | Some (JStr s) \<Rightarrow> Some (JStr s)
      | Some v \<Rightarrow> Some (JStr (JSON_stringify rt v)))"

text \<open>The declared fields laid over the defaults.\<close>

definition merged :: "runtime \<Rightarrow> jsval \<Rightarrow> obj" where
  "merged rt config =
     (\<lambda>k. case own_props rt config k of Some v \<Rightarrow> Some v | None \<Rightarrow> map_of MONITOR_DEFAULTS k)"

text \<open>The fields that \<open>configToMonitorBean\<close> sets or rewrites after the merge.\<close>

definition normalised_fields :: "string set" where
  "normalised_fields =
     {''user_id'', ''config_managed'', ''accepted_statuscodes'', ''accepted_statuscodes_json''}
     \<union> set jsonFields"

text \<open>An http monitor with a declared interval and a declared list of conditions.\<close>

definition def_google :: jsval where
  "def_google =
     JObj [(''name'', JStr ''Google''), (''type'', JStr ''http''),
           (''url'', JStr ''https://google.com''), (''interval'', JNum (Fin 90)),
           (''conditions'', JArr [])]"

text \<open>A push monitor that declares an owner and a status code that is neither a list nor a string.\<close>

definition def_overridden :: jsval where
  "def_overridden =
     JObj [(''name'', JStr ''p''), (''type'', JStr ''push''), (''user_id'', JNum (Fin 99)),
           (''accepted_statuscodes'', JNum (Fin 200))]"

text \<open>The table is well formed: ids are positive, pairwise different and below the next id of the autoincrement.\<close>

definition wf_db :: "state \<Rightarrow> bool" where
  "wf_db st = (distinct (map row_id (rows st)) \<and> 0 < next_id st \<and>
               (\<forall>r \<in> set (rows st). 0 < row_id r \<and> row_id r < next_id st))"

text \<open>The calls on collaborators made between two states.\<close>

definition new_calls :: "state \<Rightarrow> state \<Rightarrow> event list" where
  "new_calls st st' = drop (length (calls st)) (calls st')"

text \<open>The calls that stop or start a task.\<close>

fun is_task_event :: "event \<Rightarrow> bool" where
  "is_task_event (TaskStop i) = True"
| "is_task_event (TaskStart i) = True"
| "is_task_event e = False"

text \<open>The bean that \<^verbatim>\<open>findOrCreateMonitor\<close> returns for a definition.\<close>

definition found_bean :: "collab \<Rightarrow> nat \<Rightarrow> jsval \<Rightarrow> state \<Rightarrow> bean" where
  "found_bean co u m st =
     (case R_findOne co (get_prop m ''name'') u st of Some r \<Rightarrow> bean_of r | None \<Rightarrow> dispense)"

text \<open>That bean after the import of the data of the definition.\<close>

definition new_bean :: "runtime \<Rightarrow> collab \<Rightarrow> nat \<Rightarrow> jsval \<Rightarrow> state \<Rightarrow> bean" where
  "new_bean rt co u m st = import_data (configToMonitorBean rt m u) (found_bean co u m st)"

text \<open>The result after the store of a definition was counted.\<close>

definition counted :: "collab \<Rightarrow> nat \<Rightarrow> jsval \<Rightarrow> state \<Rightarrow> result \<Rightarrow> result" where
  "counted co u m st res =
     (if bean_id (found_bean co u m st) = 0 then res\<lparr>added := added res + 1\<rparr>
      else res\<lparr>updated := updated res + 1\<rparr>)"

text \<open>The \<^verbatim>\<open>try\<close> block got as far as the store: no call before it threw, and \<^verbatim>\<open>R.store\<close> returned the bean \<open>b\<close> and the state \<open>st3\<close>.\<close>

definition stored :: "runtime \<Rightarrow> collab \<Rightarrow> nat \<Rightarrow> jsval \<Rightarrow> state \<Rightarrow> bean \<Rightarrow> state \<Rightarrow> bool" where
  "stored rt co u m st b st3 =
     (findOne_throws co (get_prop m ''name'') = None \<and>
      validate_throws co (new_bean rt co u m st) = None \<and>
      store_throws co (new_bean rt co u m st) = None \<and>
      R_store co (new_bean rt co u m st)
        (log_call (DbStore (bean_id (new_bean rt co u m st))) (log_call DbFindOne st)) = (b, st3))"

text \<open>\<^verbatim>\<open>bean.active\<close> is truthy.\<close>

definition truthy_active :: "bean \<Rightarrow> bool" where
  "truthy_active b = (\<not> falsy (props b ''active''))"

text \<open>Between the two states no row, no id and no registry entry changed, and no task was stopped or started.\<close>

definition quiet :: "state \<Rightarrow> state \<Rightarrow> bool" where
  "quiet st st' =
     (rows st' = rows st \<and> next_id st' = next_id st \<and> monitorList st' = monitorList st \<and>
      leaked st' = leaked st \<and> configFilePath st' = configFilePath st \<and>
      (\<exists>cs. calls st' = calls st @ cs \<and> (\<forall>e\<in>set cs. \<not> is_task_event e)))"

text \<open>The message of a removal that failed.\<close>

fun is_removal_error :: "err \<Rightarrow> bool" where
  "is_removal_error (ErrorRemoving n m) = True"
| "is_removal_error e = False"

text \<open>A body of the apply loop that caught an exception: one more error when the message could be built, and the exception of the template \<open>x\<close> otherwise.\<close>

definition step_failed :: "exn option \<Rightarrow> result \<Rightarrow> result \<Rightarrow> bool" where
  "step_failed x res res' =
     (if x = None
      then \<exists>n msg. res' = res\<lparr>errors := result.errors res @ [ErrorProcessing n msg]\<rparr>
      else res' = res)"

text \<open>A body of the apply loop after the store was counted: nothing more, or a caught exception.\<close>

definition step_done :: "exn option \<Rightarrow> result \<Rightarrow> result \<Rightarrow> bool" where
  "step_done x res res' = ((x = None \<and> res' = res) \<or> step_failed x res res')"

text \<open>The stops and starts that one definition may add for the identity \<open>i\<close>, seen from the registry before it: none; with a handle registered, a stop alone (it threw) or a stop followed by a start; without one, a start alone.\<close>

definition task_calls :: "state \<Rightarrow> nat \<Rightarrow> event list \<Rightarrow> bool" where
  "task_calls st i tes =
     (tes = [] \<or>
      (i \<in> dom (monitorList st) \<and> (tes = [TaskStop i] \<or> tes = [TaskStop i, TaskStart i])) \<or>
      (i \<notin> dom (monitorList st) \<and> tes = [TaskStart i]))"

text \<open>The record of a definition has a truthy \<^verbatim>\<open>active\<close>: the declared value, or the default true.\<close>

definition declared_active :: "runtime \<Rightarrow> jsval \<Rightarrow> nat \<Rightarrow> bool" where
  "declared_active rt m u = (\<not> falsy (configToMonitorBean rt m u ''active''))"

text \<open>What a body of the apply loop does to the tasks: no running handle leaves the registry, no handle is deregistered, and after calls on the store the stops and starts are those of \<open>task_calls\<close> for the identity \<open>i\<close>, a start only for a definition whose record is active, with \<^verbatim>\<open>server\<close> not null, and leaving a handle registered.\<close>

definition step_tasks ::
  "runtime \<Rightarrow> nat \<Rightarrow> bool \<Rightarrow> jsval \<Rightarrow> state \<Rightarrow> state \<Rightarrow> nat \<Rightarrow> bool" where
  "step_tasks rt u server m st st' i =
     (leaked st' = leaked st \<and> configFilePath st' = configFilePath st \<and>
      dom (monitorList st) \<subseteq> dom (monitorList st') \<and>
      (\<exists>cs tes. calls st' = calls st @ cs @ tes \<and> (\<forall>e\<in>set cs. \<not> is_task_event e) \<and>
         task_calls st i tes \<and>
         (TaskStart i \<in> set tes \<longrightarrow>
            declared_active rt m u \<and> server \<and> i \<in> dom (monitorList st'))))"

text \<open>The owner has a config-managed record of this name.\<close>

definition present :: "nat \<Rightarrow> state \<Rightarrow> string \<Rightarrow> bool" where
  "present u st s = (\<exists>r\<in>set (rows st). is_managed u r \<and> row_name r = Some s)"

text \<open>The test of the removal loop, \<^verbatim>\<open>!configMonitorNames.has(existingMonitor.name)\<close>: the name of the record, a text or null, is none of the declared values.\<close>

definition undeclared :: "jsval option list \<Rightarrow> row \<Rightarrow> bool" where
  "undeclared names r = (Some (name_value (row_name r)) \<notin> set names)"

text \<open>No config-managed record of the owner passes that test.\<close>

definition declared_only :: "nat \<Rightarrow> jsval option list \<Rightarrow> state \<Rightarrow> bool" where
  "declared_only u names st = (\<forall>r\<in>set (rows st). is_managed u r \<longrightarrow> \<not> undeclared names r)"

text \<open>Every definition of the list has a name that is a string.\<close>

definition string_named :: "jsval list \<Rightarrow> bool" where
  "string_named ms = (\<forall>m\<in>set ms. \<exists>s. get_prop m ''name'' = Some (JStr s))"

text \<open>The errors that were pushed between two results.\<close>

definition new_errors :: "result \<Rightarrow> result \<Rightarrow> err list" where
  "new_errors res res' = drop (length (result.errors res)) (result.errors res')"

text \<open>The result after a record whose removal threw: one more error, naming the monitor.\<close>

definition removal_failed :: "row \<Rightarrow> result \<Rightarrow> result \<Rightarrow> bool" where
  "removal_failed ex res res' = (\<exists>msg. res' = removing_failed ex msg res)"

text \<open>Between the two states the record was removed: no row of its id is left, no handle is registered under its id, \<^verbatim>\<open>R.trash\<close> was called for it, and the handle registered under its id at the first state, if any, was told to stop.\<close>

definition gone :: "state \<Rightarrow> state \<Rightarrow> row \<Rightarrow> bool" where
  "gone st st' ex =
     (row_id ex \<notin> row_id ` set (rows st') \<and> monitorList st' (row_id ex) = None \<and>
      DbTrash (row_id ex) \<in> set (new_calls st st') \<and>
      (row_id ex \<in> dom (monitorList st) \<longrightarrow> TaskStop (row_id ex) \<in> set (new_calls st st')))"

text \<open>What the removal loop does to the state at most: rows leave the table, handles leave the registry after a stop, no task is started and no running handle leaves the registry.\<close>

definition removal_tasks :: "state \<Rightarrow> state \<Rightarrow> bool" where
  "removal_tasks st st' =
     (leaked st' = leaked st \<and> configFilePath st' = configFilePath st \<and>
      next_id st' = next_id st \<and>
      (\<forall>i. monitorList st i = None \<longrightarrow> monitorList st' i = None) \<and>
      row_id ` set (rows st') \<subseteq> row_id ` set (rows st) \<and> set (rows st') \<subseteq> set (rows st) \<and>
      (\<exists>cs. calls st' = calls st @ cs \<and> (\<forall>i. TaskStart i \<notin> set cs) \<and>
         (\<forall>i. i \<in> dom (monitorList st) \<and> i \<notin> dom (monitorList st') \<longrightarrow> TaskStop i \<in> set cs)))"

text \<open>No removal of these records throws: \<^verbatim>\<open>server\<close> is not null, and neither the stop of a task nor \<^verbatim>\<open>R.trash\<close> throws.\<close>

definition removals_succeed :: "collab \<Rightarrow> bool \<Rightarrow> row list \<Rightarrow> bool" where
  "removals_succeed co server exs =
     (server \<and> (\<forall>ex\<in>set exs. stop_throws co (row_id ex) = None \<and> trash_throws co ex = None))"

text \<open>The source parsed to nothing (\<^verbatim>\<open>undefined\<close>) or to a value without a \<^verbatim>\<open>monitors\<close> property.\<close>

definition empty_source :: "jsval option \<Rightarrow> bool" where
  "empty_source doc = (case doc of None \<Rightarrow> True | Some c \<Rightarrow> get_prop c ''monitors'' = None)"

text \<open>A config-managed record of owner 1 that is declared no longer.\<close>

definition row_old :: row where
  "row_old = \<lparr>row_id = 3, row_name = Some ''Old'',
               row_props = map_of [(''type'', JStr ''push''), (''user_id'', JNum (Fin 1)),
                                   (''config_managed'', JNum (Fin 1))]\<rparr>"

text \<open>A state with this one record and a running task registered for it.\<close>

definition st_one :: state where
  "st_one = st_empty\<lparr>rows := [row_old], next_id := 4, monitorList := [3 \<mapsto> True]\<rparr>"

text \<open>Collaborators whose \<^verbatim>\<open>R.trash\<close> throws.\<close>

definition co_trash_fails :: collab where
  "co_trash_fails = co_ok\<lparr>trash_throws := (\<lambda>b. Some ''SQLITE_BUSY: database is locked'')\<rparr>"

section \<open>The configuration source\<close>

lemma getConfigFilePath_Some:
  "getConfigFilePath fs st = (Some p, st1) \<Longrightarrow> p \<noteq> [] \<and> st1 = st\<lparr>configFilePath := Some p\<rparr>"
  by (auto simp: getConfigFilePath_def split: if_splits)

text \<open>
  Claim C10. With the environment variable unset (or empty) and no path cached,
  \<open>getConfigFilePath\<close> returns null and \<open>syncConfigMonitors\<close> returns the zero result with an
  empty error list, leaving the whole state as it was: no call on the store or on a task
  (the trace \<open>calls\<close> is part of the state), no row and no registry entry changed.
\<close>

theorem sync_without_path_is_noop:
  "no_path (MONITORS_YAML_PATH fs) \<Longrightarrow> no_path (configFilePath st) \<Longrightarrow>
   fst (getConfigFilePath fs st) = None \<and>
   syncConfigMonitors rt co fs userId server st = (Inr no_result, st) \<and>
   no_result = \<lparr>added = 0, updated = 0, removed = 0, errors = []\<rparr>"
  by (simp add: syncConfigMonitors_def readConfigFile_def getConfigFilePath_def no_result_def)

theorem sync_without_path_is_noop_witness:
  "no_path (MONITORS_YAML_PATH fs_unset) \<and> no_path (configFilePath st_empty) \<and>
   fst (getConfigFilePath fs_unset st_empty) = None \<and>
   syncConfigMonitors rt_example co_ok fs_unset 1 True st_empty = (Inr no_result, st_empty)"
proof -
  have a: "no_path (MONITORS_YAML_PATH fs_unset)" by (simp add: fs_unset_def)
  have b: "no_path (configFilePath st_empty)" by (simp add: st_empty_def)
  show ?thesis
    using a b sync_without_path_is_noop [OF a b, of rt_example co_ok 1 True] by simp
qed

text \<open>
  Claim C2, as stated, fails: for a source that is present and does not parse, the error
  list of the result is empty, not a list of one diagnostic. \<open>readConfigFile\<close> logs the
  diagnostic and returns null, which \<open>syncConfigMonitors\<close> treats as it treats an absent source.
\<close>

theorem malformed_source_counterexample:
  "fst (syncConfigMonitors rt_example co_ok fs_malformed 1 True st_empty) = Inr no_result \<and>
   length (result.errors no_result) = 0 \<and> length (result.errors no_result) \<noteq> 1"
  by (simp add: syncConfigMonitors_def readConfigFile_def getConfigFilePath_def no_result_def
      fs_malformed_def st_empty_def)

text \<open>
  Claim C2, amended. If the source is present (the path resolves to \<open>p\<close> and the file exists)
  and fails to parse, \<open>syncConfigMonitors\<close> returns the zero result with an empty error list,
  and the state changes in nothing but the cached path: no row, no registry entry and no
  call on a collaborator.
\<close>

theorem malformed_source_zero_result:
  "getConfigFilePath fs st = (Some p, st1) \<Longrightarrow> existsSync fs p \<Longrightarrow> load fs p = Inl e \<Longrightarrow>
   syncConfigMonitors rt co fs userId server st = (Inr no_result, st\<lparr>configFilePath := Some p\<rparr>) \<and>
   no_result = \<lparr>added = 0, updated = 0, removed = 0, errors = []\<rparr>"
  using getConfigFilePath_Some [of fs st p st1]
  by (simp add: syncConfigMonitors_def readConfigFile_def no_result_def)

theorem malformed_source_zero_result_witness:
  "getConfigFilePath fs_malformed st_empty
     = (Some ''config/monitors.yaml'', st_empty\<lparr>configFilePath := Some ''config/monitors.yaml''\<rparr>) \<and>
   existsSync fs_malformed ''config/monitors.yaml'' \<and>
   load fs_malformed ''config/monitors.yaml'' = Inl (Error ''bad indentation of a mapping entry'') \<and>
   syncConfigMonitors rt_example co_ok fs_malformed 1 True st_empty
     = (Inr no_result, st_empty\<lparr>configFilePath := Some ''config/monitors.yaml''\<rparr>)"
proof -
  have a: "getConfigFilePath fs_malformed st_empty
     = (Some ''config/monitors.yaml'', st_empty\<lparr>configFilePath := Some ''config/monitors.yaml''\<rparr>)"
    by (simp add: getConfigFilePath_def fs_malformed_def st_empty_def)
  have b: "existsSync fs_malformed ''config/monitors.yaml''" by (simp add: fs_malformed_def)
  have c: "load fs_malformed ''config/monitors.yaml''
             = Inl (Error ''bad indentation of a mapping entry'')"
    by (simp add: fs_malformed_def)
  show ?thesis
    using a b c malformed_source_zero_result [OF a b c, of rt_example co_ok 1 True] by simp
qed

section \<open>The validator\<close>

lemma and_then_simps [simp]:
  "and_then (Inl e) f = Inl e" "and_then (Inr a) f = f a"
  by (simp_all add: and_then_def)

lemma and_then_Inr:
  "and_then x f = Inr b \<Longrightarrow> \<exists>a. x = Inr a \<and> f a = Inr b"
  by (cases x) simp_all

lemmas validate_defs = validateMonitorConfig_def type_errors_def required_fields_def
  REQUIRED_FIELDS_BY_TYPE_def Object_prototype_keys_def name_errors_def
  interval_errors_def retry_interval_errors_def bound_errors_def js_lt_def js_gt_def

lemma validate_Inr:
  "validateMonitorConfig rt mc i = Inr v \<Longrightarrow>
   \<exists>tes ies res. mc \<noteq> JNull \<and> type_errors rt mc i = Inr tes \<and>
     interval_errors rt mc = Inr ies \<and> retry_interval_errors rt mc = Inr res \<and>
     validation.errors v = name_errors mc i @ tes @ ies @ res \<and>
     valid v = (validation.errors v = [])"
  by (auto simp: validateMonitorConfig_def Let_def split: if_splits dest!: and_then_Inr)

lemma valid_is_mapping:
  assumes "validateMonitorConfig rt mc i = Inr v" and "valid v"
  shows "\<exists>kvs. mc = JObj kvs \<and> \<not> falsy (map_of kvs ''name'')"
proof -
  from validate_Inr [OF assms(1)] assms(2) have "name_errors mc i = []" by auto
  then have "\<not> falsy (get_prop mc ''name'')"
    by (simp add: name_errors_def split: if_splits)
  then show ?thesis by (cases mc) auto
qed

lemma validate_A_no_url:
  "validateMonitorConfig rt def_A_no_url 0
     = Inr \<lparr>valid = False, errors = [FieldRequired ''A'' ''url'' ''http'']\<rparr>"
  by (simp add: validate_defs def_A_no_url_def)

lemma validate_B_ping:
  "validateMonitorConfig rt def_B_ping i = Inr \<lparr>valid = True, errors = []\<rparr>"
  by (simp add: validate_defs def_B_ping_def)

text \<open>
  Claim C6 fails on the code. A \<^verbatim>\<open>type\<close> that names a property inherited from
  \<^verbatim>\<open>Object.prototype\<close> is not a member of the type enumeration, and the validator emits no
  error for it: the lookup in the table finds the inherited value, which is truthy, and the
  loop over it throws. The definition \<^verbatim>\<open>{name: "x", type: "constructor"}\<close> at position 0:
\<close>

theorem validate_inherited_type_throws:
  "validateMonitorConfig rt def_inherited_type 0
     = Inl (TypeError ''requiredFields is not iterable'')"
  by (simp add: validate_defs def_inherited_type_def)

section \<open>Bounds on interval and retryInterval\<close>








section \<open>The validation gate of a cycle\<close>

lemmas run_defs = syncConfigMonitors_def readConfigFile_def getConfigFilePath_def fs_with_def
  st_empty_def monitors_of_def remove_monitors_def process_monitor_def try_process_def
  remove_monitor_def R_findOne_def R_find_def R_store_def R_trash_def co_ok_def Let_def
  start_if_active_def stop_task_def start_task_def register_task_def unregister_task_def
  log_call_def dispense_def removing_failed_def no_result_def declaring_def
  is_managed_def user_id_val_def row_of_def bean_of_def

text \<open>
Claim C1, failing input: the declared set holds a definition that fails validation (an http
monitor without url) and a definition whose type is \<^verbatim>\<open>constructor\<close>. The cycle does not
return a result with the accumulated validation errors: it throws the TypeError of the
validator (the defect of claim C6), from the validation loop, which is outside every
\<^verbatim>\<open>try\<close>. The state is the initial one with the path cached.
\<close>

theorem sync_validation_throws:
  "syncConfigMonitors rt_example co_ok
     (fs_with (Some (declaring [def_A_no_url, def_inherited_type]))) 1 True st_empty
   = (Inl (TypeError ''requiredFields is not iterable''),
      st_empty\<lparr>configFilePath := Some ''config/monitors.yaml''\<rparr>) \<and>
   validateMonitorConfig rt_example def_A_no_url 0
   = Inr \<lparr>valid = False, errors = [FieldRequired ''A'' ''url'' ''http'']\<rparr>"
  by (simp add: run_defs validate_defs def_A_no_url_def def_inherited_type_def)

section \<open>configToMonitorBean is a merge\<close>

lemma json_text_idem: "json_text rt (json_text rt x) = json_text rt x"
  by (auto simp: json_text_def split: option.splits jsval.splits)

lemma json_field_apply:
  "json_field rt f m k = (if k = f then json_text rt (m f) else m k)"
  by (auto simp: json_field_def json_text_def split: option.splits jsval.splits)

lemma fold_json_field:
  "fold (json_field rt) fs m k = (if k \<in> set fs then json_text rt (m k) else m k)"
  by (induction fs arbitrary: m) (auto simp: json_field_apply json_text_idem)

lemma merged_eq: "map_of MONITOR_DEFAULTS ++ own_props rt config = merged rt config"
  by (rule ext) (simp add: merged_def map_add_def)

lemma statuscodes_json_apply:
  "statuscodes_json rt m k =
     (if k = ''accepted_statuscodes_json''
      then (case m ''accepted_statuscodes'' of
              Some (JArr xs) \<Rightarrow> Some (JStr (JSON_stringify rt (JArr xs)))
            | Some (JStr s) \<Rightarrow> Some (JStr s)
            | _ \<Rightarrow> m ''accepted_statuscodes_json'')
      else m k)"
  by (auto simp: statuscodes_json_def split: option.splits jsval.splits)

lemma not_jsonFields:
  "''user_id'' \<notin> set jsonFields" "''config_managed'' \<notin> set jsonFields"
  "''accepted_statuscodes'' \<notin> set jsonFields" "''accepted_statuscodes_json'' \<notin> set jsonFields"
  "''active'' \<notin> set jsonFields" "''name'' \<notin> set jsonFields"
  by (simp_all add: jsonFields_def)

lemma jsonFields_other:
  "k \<in> set jsonFields \<Longrightarrow>
     k \<noteq> ''config_managed'' \<and> k \<noteq> ''user_id'' \<and> k \<noteq> ''accepted_statuscodes'' \<and>
     k \<noteq> ''accepted_statuscodes_json''"
  by (auto simp: jsonFields_def)

lemma bean_apply:
  "configToMonitorBean rt config userId k =
     (if k = ''config_managed'' then Some (JBool True)
      else if k = ''user_id'' then Some (user_id_val userId)
      else if k \<in> set jsonFields then
        json_text rt (if k = ''accepted_statuscodes'' then None
                      else statuscodes_json rt (merged rt config) k)
      else if k = ''accepted_statuscodes'' then None
      else statuscodes_json rt (merged rt config) k)"
  unfolding configToMonitorBean_def Let_def merged_eq
  by (simp add: fold_json_field)

lemma merged_statuscodes_json:
  "merged rt config ''accepted_statuscodes_json'' = own_props rt config ''accepted_statuscodes_json''"
  by (simp add: merged_def MONITOR_DEFAULTS_def split: option.splits)

lemma bean_json_field:
  "k \<in> set jsonFields \<Longrightarrow>
     configToMonitorBean rt config userId k = json_text rt (merged rt config k)"
  using jsonFields_other [of k] by (simp add: bean_apply statuscodes_json_apply)

lemma bean_other_field:
  "k \<notin> normalised_fields \<Longrightarrow> configToMonitorBean rt config userId k = merged rt config k"
  by (simp add: bean_apply statuscodes_json_apply normalised_fields_def)

text \<open>
Claim C5, counterexample: a definition declares \<^verbatim>\<open>user_id: 99\<close> and
\<^verbatim>\<open>accepted_statuscodes: 200\<close>. The output holds the owner 7 under \<^verbatim>\<open>user_id\<close>, not the
declared value, and the declared status code is in the output neither under its own name nor
serialized.
\<close>

theorem merge_counterexample:
  "own_props rt_example def_overridden ''user_id'' = Some (JNum (Fin 99)) \<and>
   configToMonitorBean rt_example def_overridden 7 ''user_id'' = Some (JNum (Fin 7)) \<and>
   own_props rt_example def_overridden ''accepted_statuscodes'' = Some (JNum (Fin 200)) \<and>
   configToMonitorBean rt_example def_overridden 7 ''accepted_statuscodes'' = None \<and>
   configToMonitorBean rt_example def_overridden 7 ''accepted_statuscodes_json'' = None"
  by (simp add: bean_apply not_jsonFields statuscodes_json_apply merged_def def_overridden_def
      user_id_val_def MONITOR_DEFAULTS_def)

text \<open>
Claim C5, as amended. \<open>configToMonitorBean\<close> is a function of the definition, the owner and the
runtime. Its output has \<^verbatim>\<open>user_id\<close> equal to the owner and \<^verbatim>\<open>config_managed\<close> true, whatever
the definition declares for them. The structured fields are serialized only when they are not
a string already: each of the four JSON fields is the merged value (declared, else default) if
that is a string and its \<^verbatim>\<open>JSON.stringify\<close> otherwise; the accepted status codes leave the
output under their own name and are stored as \<^verbatim>\<open>accepted_statuscodes_json\<close>, serialized when
a list and as they are when a string, and when they are neither the output holds what is
declared under \<^verbatim>\<open>accepted_statuscodes_json\<close>, if anything. Every field other than
these eight that the definition declares is in the output with the declared value, and every
such field that it does not declare has its default (and is absent when there is no default).
\<close>

theorem configToMonitorBean_merge:
  "configToMonitorBean rt config userId ''user_id'' = Some (user_id_val userId) \<and>
   configToMonitorBean rt config userId ''config_managed'' = Some (JBool True) \<and>
   configToMonitorBean rt config userId ''accepted_statuscodes'' = None \<and>
   configToMonitorBean rt config userId ''accepted_statuscodes_json'' =
     (case merged rt config ''accepted_statuscodes'' of
        Some (JArr xs) \<Rightarrow> Some (JStr (JSON_stringify rt (JArr xs)))
      | Some (JStr s) \<Rightarrow> Some (JStr s)
      | _ \<Rightarrow> own_props rt config ''accepted_statuscodes_json'') \<and>
   (\<forall>k \<in> set jsonFields.
      configToMonitorBean rt config userId k = json_text rt (merged rt config k)) \<and>
   (\<forall>k v. k \<notin> normalised_fields \<longrightarrow> own_props rt config k = Some v \<longrightarrow>
      configToMonitorBean rt config userId k = Some v) \<and>
   (\<forall>k. k \<notin> normalised_fields \<longrightarrow> own_props rt config k = None \<longrightarrow>
      configToMonitorBean rt config userId k = map_of MONITOR_DEFAULTS k)"
proof -
  have 1: "configToMonitorBean rt config userId ''user_id'' = Some (user_id_val userId)"
    by (simp add: bean_apply)
  have 2: "configToMonitorBean rt config userId ''config_managed'' = Some (JBool True)"
    by (simp add: bean_apply)
  have 3: "configToMonitorBean rt config userId ''accepted_statuscodes'' = None"
    by (simp add: bean_apply not_jsonFields)
  have 4: "configToMonitorBean rt config userId ''accepted_statuscodes_json'' =
     (case merged rt config ''accepted_statuscodes'' of
        Some (JArr xs) \<Rightarrow> Some (JStr (JSON_stringify rt (JArr xs)))
      | Some (JStr s) \<Rightarrow> Some (JStr s)
      | _ \<Rightarrow> own_props rt config ''accepted_statuscodes_json'')"
    by (simp add: bean_apply not_jsonFields statuscodes_json_apply merged_statuscodes_json
        split: option.splits jsval.splits)
  have 6: "configToMonitorBean rt config userId k = Some v"
    if "k \<notin> normalised_fields" "own_props rt config k = Some v" for k v
    using that by (simp add: bean_other_field merged_def)
  have 7: "configToMonitorBean rt config userId k = map_of MONITOR_DEFAULTS k"
    if "k \<notin> normalised_fields" "own_props rt config k = None" for k
    using that by (simp add: bean_other_field merged_def)
  show ?thesis
    using 1 2 3 4 6 7 bean_json_field [of _ rt config userId] by blast
qed

text \<open>
Witness of the amended claim C5 at an http monitor.
\<close>

theorem configToMonitorBean_merge_witness:
  "''url'' \<notin> normalised_fields \<and>
   own_props rt_example def_google ''url'' = Some (JStr ''https://google.com'') \<and>
   configToMonitorBean rt_example def_google 7 ''url'' = Some (JStr ''https://google.com'') \<and>
   ''interval'' \<notin> normalised_fields \<and>
   own_props rt_example def_google ''interval'' = Some (JNum (Fin 90)) \<and>
   configToMonitorBean rt_example def_google 7 ''interval'' = Some (JNum (Fin 90)) \<and>
   ''timeout'' \<notin> normalised_fields \<and>
   own_props rt_example def_google ''timeout'' = None \<and>
   configToMonitorBean rt_example def_google 7 ''timeout'' = Some (JNum (Fin 48)) \<and>
   ''conditions'' \<in> set jsonFields \<and>
   configToMonitorBean rt_example def_google 7 ''conditions'' = Some (JStr ''[]'') \<and>
   configToMonitorBean rt_example def_google 7 ''user_id'' = Some (JNum (Fin 7))"
proof -
  note c = configToMonitorBean_merge [of rt_example def_google 7]
  have u: "''url'' \<notin> normalised_fields" "''interval'' \<notin> normalised_fields"
    "''timeout'' \<notin> normalised_fields"
    by (simp_all add: normalised_fields_def jsonFields_def)
  have o: "own_props rt_example def_google ''url'' = Some (JStr ''https://google.com'')"
    "own_props rt_example def_google ''interval'' = Some (JNum (Fin 90))"
    "own_props rt_example def_google ''timeout'' = None"
    by (simp_all add: def_google_def)
  have j: "''conditions'' \<in> set jsonFields" by (simp add: jsonFields_def)
  have d: "map_of MONITOR_DEFAULTS ''timeout'' = Some (JNum (Fin 48))"
    by (simp add: MONITOR_DEFAULTS_def)
  have t: "json_text rt_example (merged rt_example def_google ''conditions'') = Some (JStr ''[]'')"
    by (simp add: json_text_def merged_def def_google_def rt_example_def)
  from c u(1) o(1)
  have r1: "configToMonitorBean rt_example def_google 7 ''url'' = Some (JStr ''https://google.com'')"
    by blast
  from c u(2) o(2)
  have r2: "configToMonitorBean rt_example def_google 7 ''interval'' = Some (JNum (Fin 90))"
    by blast
  from c u(3) o(3) d
  have r3: "configToMonitorBean rt_example def_google 7 ''timeout'' = Some (JNum (Fin 48))"
    by simp
  from c j t
  have r4: "configToMonitorBean rt_example def_google 7 ''conditions'' = Some (JStr ''[]'')"
    by simp
  from c have r5: "configToMonitorBean rt_example def_google 7 ''user_id'' = Some (JNum (Fin 7))"
    by (simp add: user_id_val_def)
  show ?thesis using u o j r1 r2 r3 r4 r5 by simp
qed

section \<open>One definition of the apply loop\<close>

lemma log_call_simps [simp]:
  "rows (log_call e st) = rows st" "next_id (log_call e st) = next_id st"
  "monitorList (log_call e st) = monitorList st" "leaked (log_call e st) = leaked st"
  "configFilePath (log_call e st) = configFilePath st"
  "calls (log_call e st) = calls st @ [e]"
  by (simp_all add: log_call_def)

lemma R_find_log_call [simp]: "R_find u (log_call e st) = R_find u st"
  "R_findOne co n u (log_call e st) = R_findOne co n u st"
  by (simp_all add: R_find_def R_findOne_def log_call_def split: option.splits)

lemma try_process_cases:
  assumes "try_process rt co u server m (st, res) = (x, st', res')"
  shows "(\<exists>msg. x = Some msg \<and> res' = res \<and> quiet st st')
       \<or> (\<exists>b st3. stored rt co u m st b st3 \<and> res' = counted co u m st res \<and>
             ((\<exists>e. render rt (props b ''name'') = Inl e \<and> x = Some (message e) \<and> st' = st3)
              \<or> start_if_active co server b st3 = (x, st')))"
proof (cases "findOne_throws co (get_prop m ''name'')")
  case (Some msg)
  with assms have "x = Some msg \<and> res' = res \<and> quiet st st'"
    by (auto simp: try_process_def Let_def quiet_def)
  then show ?thesis by blast
next
  case fo: None
  let ?bean = "new_bean rt co u m st"
  show ?thesis
  proof (cases "validate_throws co ?bean")
    case (Some msg)
    with assms fo have "x = Some msg \<and> res' = res \<and> quiet st st'"
      by (auto simp: try_process_def Let_def quiet_def new_bean_def found_bean_def)
    then show ?thesis by blast
  next
    case va: None
    show ?thesis
    proof (cases "store_throws co ?bean")
      case (Some msg)
      with assms fo va have "x = Some msg \<and> res' = res \<and> quiet st st'"
        by (auto simp: try_process_def Let_def quiet_def new_bean_def found_bean_def)
      then show ?thesis by blast
    next
      case so: None
      obtain b st3 where rs:
        "R_store co ?bean (log_call (DbStore (bean_id ?bean)) (log_call DbFindOne st)) = (b, st3)"
        by (cases "R_store co ?bean (log_call (DbStore (bean_id ?bean)) (log_call DbFindOne st))")
      from fo va so rs have s: "stored rt co u m st b st3" by (simp add: stored_def)
      from assms fo va so rs
      have "res' = counted co u m st res \<and>
             ((\<exists>e. render rt (props b ''name'') = Inl e \<and> x = Some (message e) \<and> st' = st3)
              \<or> start_if_active co server b st3 = (x, st'))"
        by (auto simp: try_process_def Let_def new_bean_def found_bean_def counted_def
            import_data_def split: sum.splits prod.splits)
      with s show ?thesis by blast
    qed
  qed
qed

lemma process_monitor_try:
  assumes "process_monitor rt co u server m (st, res) = (x, st', res')"
  shows "\<exists>y res2. try_process rt co u server m (st, res) = (y, st', res2) \<and>
           (if y = None then x = None \<and> res' = res2 else step_failed x res2 res')"
proof -
  obtain y st2 res2 where t: "try_process rt co u server m (st, res) = (y, st2, res2)"
    by (cases "try_process rt co u server m (st, res)")
  show ?thesis
  proof (cases y)
    case None
    with assms t show ?thesis by (simp add: process_monitor_def)
  next
    case (Some msg)
    with assms t show ?thesis
      by (cases "render rt (get_prop m ''name'')") (auto simp: process_monitor_def step_failed_def)
  qed
qed

lemma start_if_active_cases:
  assumes "start_if_active co server b st = (x, st')"
  shows "rows st' = rows st \<and> next_id st' = next_id st \<and> configFilePath st' = configFilePath st \<and>
         leaked st' = leaked st \<and> dom (monitorList st) \<subseteq> dom (monitorList st') \<and>
         (\<exists>tes. calls st' = calls st @ tes \<and> task_calls st (bean_id b) tes \<and>
            (TaskStart (bean_id b) \<in> set tes \<longrightarrow>
               truthy_active b \<and> server \<and> bean_id b \<in> dom (monitorList st')))"
  using assms
  by (auto simp: start_if_active_def stop_task_def start_task_def register_task_def Let_def
      task_calls_def truthy_active_def split: if_splits option.splits prod.splits)

lemma stored_state:
  assumes "stored rt co u m st b st3"
  shows "monitorList st3 = monitorList st \<and> leaked st3 = leaked st \<and>
         configFilePath st3 = configFilePath st \<and>
         calls st3 = calls st @ [DbFindOne, DbStore (bean_id (found_bean co u m st))] \<and>
         props b = props (new_bean rt co u m st)"
  using assms
  by (auto simp: stored_def R_store_def Let_def new_bean_def import_data_def split: if_splits)

lemma stored_rows:
  assumes s: "stored rt co u m st b st3" and nz: "\<forall>r\<in>set (rows st). row_id r \<noteq> 0"
  shows "(R_findOne co (get_prop m ''name'') u st = None \<and> bean_id (found_bean co u m st) = 0 \<and>
          rows st3 = rows st @ [row_of co b] \<and> bean_id b = next_id st \<and>
          next_id st3 = Suc (next_id st))
       \<or> (\<exists>f. R_findOne co (get_prop m ''name'') u st = Some f \<and>
              bean_id (found_bean co u m st) \<noteq> 0 \<and>
              rows st3 = map (\<lambda>r. if row_id r = row_id f then row_of co b else r) (rows st) \<and>
              bean_id b = row_id f \<and> next_id st3 = next_id st)"
proof (cases "R_findOne co (get_prop m ''name'') u st")
  case None
  with s show ?thesis
    by (auto simp: stored_def R_store_def Let_def new_bean_def found_bean_def import_data_def
        dispense_def)
next
  case (Some f)
  then have "f \<in> set (rows st)"
    by (auto simp: R_findOne_def find_Some_iff split: option.splits)
  with nz have "row_id f \<noteq> 0" by blast
  with s Some show ?thesis
    by (auto simp: stored_def R_store_def Let_def new_bean_def found_bean_def import_data_def
        bean_of_def)
qed

lemma props_new_bean:
  "props (new_bean rt co u m st) k =
     (if k = ''id'' then props (found_bean co u m st) k
      else case configToMonitorBean rt m u k of
             Some v \<Rightarrow> Some v
           | None \<Rightarrow> props (found_bean co u m st) k)"
  by (simp add: new_bean_def import_data_def map_add_def restrict_map_def)

lemma own_name: "get_prop m ''name'' = Some v \<Longrightarrow> own_props rt m ''name'' = Some v"
  by (cases m) simp_all

lemma stored_row:
  assumes "stored rt co u m st b st3"
  shows "is_managed u (row_of co b) \<and> row_id (row_of co b) = bean_id b \<and>
         props b ''active'' = configToMonitorBean rt m u ''active'' \<and>
         configToMonitorBean rt m u ''active'' \<noteq> None \<and>
         (get_prop m ''name'' = Some v \<longrightarrow>
            props b ''name'' = Some v \<and> row_name (row_of co b) = name_column co (Some v))"
proof -
  from stored_state [OF assms] have p: "props b = props (new_bean rt co u m st)" by simp
  have a: "configToMonitorBean rt m u ''active'' \<noteq> None"
    by (simp add: bean_apply not_jsonFields statuscodes_json_apply merged_def
        MONITOR_DEFAULTS_def split: option.splits)
  have n: "configToMonitorBean rt m u ''name'' = Some v" if "get_prop m ''name'' = Some v"
    using own_name [OF that, of rt]
    by (simp add: bean_apply not_jsonFields statuscodes_json_apply merged_def)
  have u: "configToMonitorBean rt m u ''user_id'' = Some (user_id_val u)"
    "configToMonitorBean rt m u ''config_managed'' = Some (JBool True)"
    by (simp_all add: bean_apply)
  show ?thesis
    using a n u
    by (auto simp: p props_new_bean row_of_def is_managed_def user_id_val_def)
qed

lemma quiet_step_tasks: "quiet st st' \<Longrightarrow> step_tasks rt u server m st st' i"
  unfolding quiet_def step_tasks_def
  by (elim conjE exE, intro conjI, simp, simp, simp, rule_tac x = cs in exI, rule_tac x = "[]" in exI)
     (simp add: task_calls_def)

lemma stored_step_tasks:
  assumes s: "stored rt co u m st b st3"
    and t: "(\<exists>e. render rt (props b ''name'') = Inl e \<and> x = Some (message e) \<and> st' = st3)
            \<or> start_if_active co server b st3 = (x, st')"
  shows "step_tasks rt u server m st st' (bean_id b) \<and> rows st' = rows st3 \<and>
         next_id st' = next_id st3"
proof -
  note ss = stored_state [OF s]
  note sr = stored_row [OF s]
  from t show ?thesis
  proof
    assume "\<exists>e. render rt (props b ''name'') = Inl e \<and> x = Some (message e) \<and> st' = st3"
    then have e: "st' = st3" by blast
    have "step_tasks rt u server m st st3 (bean_id b)"
      unfolding step_tasks_def using ss
      by (intro conjI, simp, simp, simp,
          rule_tac x = "[DbFindOne, DbStore (bean_id (found_bean co u m st))]" in exI,
          rule_tac x = "[]" in exI) (simp add: task_calls_def)
    with e show ?thesis by simp
  next
    assume a: "start_if_active co server b st3 = (x, st')"
    from start_if_active_cases [OF a] obtain tes where
      r: "rows st' = rows st3" "next_id st' = next_id st3" "configFilePath st' = configFilePath st3"
         "leaked st' = leaked st3" "dom (monitorList st3) \<subseteq> dom (monitorList st')"
      and c: "calls st' = calls st3 @ tes" "task_calls st3 (bean_id b) tes"
         "TaskStart (bean_id b) \<in> set tes \<longrightarrow>
            truthy_active b \<and> server \<and> bean_id b \<in> dom (monitorList st')"
      by blast
    have tc: "task_calls st (bean_id b) tes" using c(2) ss by (simp add: task_calls_def)
    have da: "truthy_active b = declared_active rt m u"
      using sr by (simp add: truthy_active_def declared_active_def)
    have "step_tasks rt u server m st st' (bean_id b)"
      unfolding step_tasks_def using ss r c tc da
      by (intro conjI, simp, simp, simp,
          rule_tac x = "[DbFindOne, DbStore (bean_id (found_bean co u m st))]" in exI,
          rule_tac x = tes in exI) simp
    with r show ?thesis by simp
  qed
qed

lemma process_monitor_cases:
  assumes pm: "process_monitor rt co u server m (st, res) = (x, st', res')"
      and nm: "get_prop m ''name'' = Some v"
      and nz: "\<forall>r\<in>set (rows st). row_id r \<noteq> 0"
  shows "(rows st' = rows st \<and> next_id st' = next_id st \<and> quiet st st' \<and>
          step_failed x res res')
       \<or> (\<exists>b. R_findOne co (Some v) u st = None \<and> rows st' = rows st @ [b] \<and>
              next_id st' = Suc (next_id st) \<and> row_id b = next_id st \<and> is_managed u b \<and>
              row_name b = name_column co (Some v) \<and>
              step_tasks rt u server m st st' (row_id b) \<and>
              step_done x (res\<lparr>added := added res + 1\<rparr>) res')
       \<or> (\<exists>f b. R_findOne co (Some v) u st = Some f \<and>
              rows st' = map (\<lambda>r. if row_id r = row_id f then b else r) (rows st) \<and>
              next_id st' = next_id st \<and> row_id b = row_id f \<and> is_managed u b \<and>
              row_name b = name_column co (Some v) \<and>
              step_tasks rt u server m st st' (row_id b) \<and>
              step_done x (res\<lparr>updated := updated res + 1\<rparr>) res')"
proof -
  from process_monitor_try [OF pm] obtain y res2 where
    t: "try_process rt co u server m (st, res) = (y, st', res2)"
    and y: "if y = None then x = None \<and> res' = res2 else step_failed x res2 res'"
    by blast
  from try_process_cases [OF t] consider
    (early) msg where "y = Some msg" "res2 = res" "quiet st st'"
  | (late) b st3 where "stored rt co u m st b st3" "res2 = counted co u m st res"
      "(\<exists>e. render rt (props b ''name'') = Inl e \<and> y = Some (message e) \<and> st' = st3)
              \<or> start_if_active co server b st3 = (y, st')"
    by blast
  then show ?thesis
  proof cases
    case a: early
    with y have "step_failed x res res'" by simp
    with a(3) show ?thesis by (simp add: quiet_def)
  next
    case (late b st3)
    note s = late(1) and c = late(2) and d = late(3)
    from stored_step_tasks [OF s d] have st: "step_tasks rt u server m st st' (bean_id b)"
      and r: "rows st' = rows st3" "next_id st' = next_id st3" by simp_all
    from stored_row [OF s, of v] nm have row: "is_managed u (row_of co b)"
      "row_id (row_of co b) = bean_id b" "row_name (row_of co b) = name_column co (Some v)"
      by simp_all
    from y have sd: "step_done x res2 res'" by (auto simp: step_done_def split: if_splits)
    from stored_rows [OF s nz] show ?thesis
    proof (elim disjE exE conjE)
      assume a: "R_findOne co (get_prop m ''name'') u st = None"
        "bean_id (found_bean co u m st) = 0" "rows st3 = rows st @ [row_of co b]"
        "bean_id b = next_id st" "next_id st3 = Suc (next_id st)"
      have "R_findOne co (Some v) u st = None \<and> rows st' = rows st @ [row_of co b] \<and>
              next_id st' = Suc (next_id st) \<and> row_id (row_of co b) = next_id st \<and>
              is_managed u (row_of co b) \<and>
              row_name (row_of co b) = name_column co (Some v) \<and>
              step_tasks rt u server m st st' (row_id (row_of co b)) \<and>
              step_done x (res\<lparr>added := added res + 1\<rparr>) res'"
        using a r row st sd c nm by (simp add: counted_def)
      then show ?thesis by blast
    next
      fix f
      assume a: "R_findOne co (get_prop m ''name'') u st = Some f"
        "bean_id (found_bean co u m st) \<noteq> 0"
        "rows st3 = map (\<lambda>r. if row_id r = row_id f then row_of co b else r) (rows st)"
        "bean_id b = row_id f" "next_id st3 = next_id st"
      have "R_findOne co (Some v) u st = Some f \<and>
              rows st' = map (\<lambda>r. if row_id r = row_id f then row_of co b else r) (rows st) \<and>
              next_id st' = next_id st \<and> row_id (row_of co b) = row_id f \<and>
              is_managed u (row_of co b) \<and>
              row_name (row_of co b) = name_column co (Some v) \<and>
              step_tasks rt u server m st st' (row_id (row_of co b)) \<and>
              step_done x (res\<lparr>updated := updated res + 1\<rparr>) res'"
        using a r row st sd c nm by (simp add: counted_def)
      then show ?thesis by blast
    qed
  qed
qed

section \<open>The apply loop, for declared names that are strings\<close>

lemma R_findOne_Some:
  "R_findOne co n u st = Some f \<Longrightarrow>
     f \<in> set (rows st) \<and> is_managed u f \<and> row_name f = name_column co n \<and>
     name_column co n \<noteq> None"
  by (auto simp: R_findOne_def find_Some_iff split: option.splits)

lemma R_findOne_None:
  "R_findOne co n u st = None \<Longrightarrow> name_column co n = Some s \<Longrightarrow> r \<in> set (rows st) \<Longrightarrow>
     is_managed u r \<Longrightarrow> row_name r \<noteq> Some s"
  by (auto simp: R_findOne_def find_None_iff)

lemma step_failed_fields:
  "step_failed x res res' \<Longrightarrow> added res' = added res \<and> updated res' = updated res \<and>
     removed res' = removed res \<and>
     (\<exists>es. result.errors res' = result.errors res @ es \<and> (\<forall>e\<in>set es. \<not> is_removal_error e) \<and>
           (x = None \<longrightarrow> es \<noteq> []))"
  by (cases x) (auto simp: step_failed_def)

lemma step_done_fields:
  "step_done x res res' \<Longrightarrow> added res' = added res \<and> updated res' = updated res \<and>
     removed res' = removed res \<and>
     (\<exists>es. result.errors res' = result.errors res @ es \<and> (\<forall>e\<in>set es. \<not> is_removal_error e))"
  by (auto simp: step_done_def dest!: step_failed_fields)

lemma distinct_same_id:
  "distinct (map row_id xs) \<Longrightarrow> r \<in> set xs \<Longrightarrow> f \<in> set xs \<Longrightarrow> row_id r = row_id f \<Longrightarrow> r = f"
  by (meson distinct_map inj_onD)

lemma distinct_map_update:
  "distinct (map row_id xs) \<Longrightarrow> row_id b = row_id f \<Longrightarrow>
   distinct (map row_id (map (\<lambda>r. if row_id r = row_id f then b else r) xs))"
proof -
  assume d: "distinct (map row_id xs)" and e: "row_id b = row_id f"
  have "map (row_id \<circ> (\<lambda>r. if row_id r = row_id f then b else r)) xs = map row_id xs"
    using e by (induction xs) auto
  with d show ?thesis by (simp only: map_map)
qed

lemma wf_db_nz: "wf_db st \<Longrightarrow> \<forall>r\<in>set (rows st). row_id r \<noteq> 0"
  by (auto simp: wf_db_def)

lemma process_wf:
  assumes pm: "process_monitor rt co u server m (st, res) = (x, st', res')"
      and nm: "get_prop m ''name'' = Some v"
      and wf: "wf_db st"
  shows "wf_db st'"
proof -
  note nz = wf_db_nz [OF wf]
  from process_monitor_cases [OF pm nm nz] show ?thesis
  proof (elim disjE exE conjE)
    assume "rows st' = rows st" "next_id st' = next_id st"
    with wf show ?thesis by (simp add: wf_db_def)
  next
    fix b assume "rows st' = rows st @ [b]" "next_id st' = Suc (next_id st)" "row_id b = next_id st"
    with wf show ?thesis by (auto simp: wf_db_def less_Suc_eq)
  next
    fix f b assume f: "R_findOne co (Some v) u st = Some f"
      and r: "rows st' = map (\<lambda>r. if row_id r = row_id f then b else r) (rows st)"
      and n: "next_id st' = next_id st" and i: "row_id b = row_id f"
    from R_findOne_Some [OF f] have fin: "f \<in> set (rows st)" by simp
    have "distinct (map row_id (rows st'))"
      unfolding r using wf i by (intro distinct_map_update) (auto simp: wf_db_def)
    moreover have "\<forall>r\<in>set (rows st'). 0 < row_id r \<and> row_id r < next_id st'"
      using wf fin i by (auto simp: r n wf_db_def)
    ultimately show ?thesis using wf n by (simp add: wf_db_def)
  qed
qed

lemma process_counts:
  assumes pm: "process_monitor rt co u server m (st, res) = (x, st', res')"
      and nm: "get_prop m ''name'' = Some v"
      and nz: "\<forall>r\<in>set (rows st). row_id r \<noteq> 0"
  shows "removed res' = removed res \<and>
         (\<exists>es. result.errors res' = result.errors res @ es \<and>
               (\<forall>e\<in>set es. \<not> is_removal_error e)) \<and>
         (R_findOne co (Some v) u st \<noteq> None \<longrightarrow> added res' = added res)"
  using process_monitor_cases [OF pm nm nz]
  by (elim disjE exE conjE) (auto dest!: step_failed_fields step_done_fields)

lemma process_success_present:
  assumes pm: "process_monitor rt co u server m (st, res) = (None, st', res')"
      and nm: "get_prop m ''name'' = Some (JStr s)"
      and nz: "\<forall>r\<in>set (rows st). row_id r \<noteq> 0"
      and ok: "result.errors res' = result.errors res"
  shows "present u st' s"
  using process_monitor_cases [OF pm nm nz] ok
proof (elim disjE exE conjE)
  fix f b assume f: "R_findOne co (Some (JStr s)) u st = Some f"
      and r: "rows st' = map (\<lambda>r. if row_id r = row_id f then b else r) (rows st)"
      and b: "is_managed u b" "row_name b = name_column co (Some (JStr s))"
  from R_findOne_Some [OF f] have "f \<in> set (rows st)" by simp
  then have "b \<in> set (rows st')" unfolding r by force
  with b show ?thesis by (auto simp: present_def)
qed (auto simp: present_def dest!: step_failed_fields)

lemma process_present:
  assumes pm: "process_monitor rt co u server m (st, res) = (x, st', res')"
      and nm: "get_prop m ''name'' = Some v"
      and wf: "wf_db st"
      and pr: "present u st n"
  shows "present u st' n"
proof -
  note nz = wf_db_nz [OF wf]
  from pr obtain r where r: "r \<in> set (rows st)" "is_managed u r" "row_name r = Some n"
    by (auto simp: present_def)
  from process_monitor_cases [OF pm nm nz] show ?thesis
  proof (elim disjE exE conjE)
    assume "rows st' = rows st"
    with pr show ?thesis by (simp add: present_def)
  next
    fix b assume "rows st' = rows st @ [b]"
    with r show ?thesis by (auto simp: present_def)
  next
    fix f b assume f: "R_findOne co (Some v) u st = Some f"
      and rs: "rows st' = map (\<lambda>r. if row_id r = row_id f then b else r) (rows st)"
      and b: "is_managed u b" "row_name b = name_column co (Some v)"
    from R_findOne_Some [OF f] have fin: "f \<in> set (rows st)"
      "row_name f = name_column co (Some v)" by simp_all
    show ?thesis
    proof (cases "row_id r = row_id f")
      case True
      with wf r(1) fin(1) have "r = f" by (auto simp: wf_db_def intro: distinct_same_id)
      with r(3) fin(2) have "name_column co (Some v) = Some n" by simp
      moreover from fin(1) have "b \<in> set (rows st')" unfolding rs by force
      ultimately show ?thesis using b by (auto simp: present_def)
    next
      case False
      with r(1) have "r \<in> set (rows st')" unfolding rs by force
      with r show ?thesis by (auto simp: present_def)
    qed
  qed
qed

lemma process_declared_only:
  assumes pm: "process_monitor rt co u server m (st, res) = (x, st', res')"
      and nm: "get_prop m ''name'' = Some (JStr s)"
      and nz: "\<forall>r\<in>set (rows st). row_id r \<noteq> 0"
      and dn: "Some (JStr s) \<in> set names"
      and d: "declared_only u names st"
  shows "declared_only u names st'"
  using process_monitor_cases [OF pm nm nz] d dn
  by (elim disjE exE conjE) (auto simp: declared_only_def undeclared_def)

lemma process_undeclared:
  assumes pm: "process_monitor rt co u server m (st, res) = (x, st', res')"
      and nm: "get_prop m ''name'' = Some (JStr s)"
      and wf: "wf_db st"
      and dn: "Some (JStr s) \<in> set names"
  shows "filter (undeclared names) (rows st') = filter (undeclared names) (rows st)"
proof -
  note nz = wf_db_nz [OF wf]
  from process_monitor_cases [OF pm nm nz] show ?thesis
  proof (elim disjE exE conjE)
    fix f b assume f: "R_findOne co (Some (JStr s)) u st = Some f"
      and rs: "rows st' = map (\<lambda>r. if row_id r = row_id f then b else r) (rows st)"
      and b: "row_name b = name_column co (Some (JStr s))"
    from R_findOne_Some [OF f] have fin: "f \<in> set (rows st)" "row_name f = Some s" by simp_all
    have same: "\<And>r. r \<in> set (rows st) \<Longrightarrow> row_id r = row_id f \<Longrightarrow> r = f"
      using wf fin(1) by (auto simp: wf_db_def intro: distinct_same_id)
    have "filter (undeclared names) (map (\<lambda>r. if row_id r = row_id f then b else r) xs)
            = filter (undeclared names) xs" if "set xs \<subseteq> set (rows st)" for xs
      using that
    proof (induction xs)
      case Nil show ?case by simp
    next
      case (Cons x xs)
      then show ?case using same [of x] b fin(2) dn by (auto simp: undeclared_def)
    qed
    then show ?thesis unfolding rs by simp
  qed (use dn in \<open>auto simp: undeclared_def\<close>)
qed

lemma apply_loop:
  assumes "apply_monitors rt co u server ms (st, res) = (x, st', res')"
      and "wf_db st" and "string_named ms"
      and "\<forall>m\<in>set ms. get_prop m ''name'' \<in> set names"
  shows "wf_db st' \<and>
         filter (undeclared names) (rows st') = filter (undeclared names) (rows st) \<and>
         removed res' = removed res \<and>
         (\<exists>es. result.errors res' = result.errors res @ es) \<and>
         (\<forall>n. present u st n \<longrightarrow> present u st' n) \<and>
         (x = None \<longrightarrow> result.errors res' = result.errors res \<longrightarrow>
            (\<forall>m\<in>set ms. \<forall>s. get_prop m ''name'' = Some (JStr s) \<longrightarrow> present u st' s)) \<and>
         (declared_only u names st \<longrightarrow> declared_only u names st') \<and>
         ((\<forall>m\<in>set ms. \<forall>s. get_prop m ''name'' = Some (JStr s) \<longrightarrow> present u st s)
            \<longrightarrow> added res' = added res)"
  using assms
proof (induction ms arbitrary: st res)
  case Nil
  then show ?case by simp
next
  case (Cons m ms)
  obtain x1 st1 res1 where s1: "process_monitor rt co u server m (st, res) = (x1, st1, res1)"
    by (cases "process_monitor rt co u server m (st, res)")
  from Cons.prems(3) obtain s where nm: "get_prop m ''name'' = Some (JStr s)"
    and nms: "string_named ms" by (auto simp: string_named_def)
  from Cons.prems(4) nm have dn: "Some (JStr s) \<in> set names"
    and dns: "\<forall>m\<in>set ms. get_prop m ''name'' \<in> set names" by auto
  note nz = wf_db_nz [OF Cons.prems(2)]
  have wf1: "wf_db st1" by (rule process_wf [OF s1 nm Cons.prems(2)])
  note c1 = process_counts [OF s1 nm nz]
  from c1 obtain es1 where e1: "result.errors res1 = result.errors res @ es1" by blast
  note u1 = process_undeclared [OF s1 nm Cons.prems(2) dn]
  note p1 = process_present [OF s1 nm Cons.prems(2)]
  note d1 = process_declared_only [OF s1 nm nz dn]
  have ad1: "added res1 = added res" if "present u st s"
  proof -
    from that obtain r where "r \<in> set (rows st)" "is_managed u r" "row_name r = Some s"
      by (auto simp: present_def)
    then have "R_findOne co (Some (JStr s)) u st \<noteq> None"
      using R_findOne_None [of co "Some (JStr s)" u st s r] by auto
    with c1 show ?thesis by simp
  qed
  show ?case
  proof (cases x1)
    case (Some e)
    with Cons.prems(1) s1 have fin: "x = Some e" "st' = st1" "res' = res1" by simp_all
    show ?thesis
      unfolding fin using wf1 u1 c1 p1 d1 ad1 nm by auto
  next
    case None
    with Cons.prems(1) s1 have rest: "apply_monitors rt co u server ms (st1, res1) = (x, st', res')"
      by simp
    note IH = Cons.IH [OF rest wf1 nms dns]
    from IH obtain es2 where e2: "result.errors res' = result.errors res1 @ es2" by blast
    have u: "filter (undeclared names) (rows st') = filter (undeclared names) (rows st)"
      using IH u1 by simp
    have p: "\<forall>n. present u st n \<longrightarrow> present u st' n"
      using IH p1 by blast
    have ok: "\<forall>m'\<in>set (m # ms). \<forall>s'. get_prop m' ''name'' = Some (JStr s') \<longrightarrow> present u st' s'"
      if "x = None" "result.errors res' = result.errors res"
    proof -
      from that e1 e2 have "es1 = []" "es2 = []" by simp_all
      then have a: "result.errors res1 = result.errors res" "result.errors res' = result.errors res1"
        using e1 e2 by simp_all
      from s1 None have s1': "process_monitor rt co u server m (st, res) = (None, st1, res1)"
        by simp
      from process_success_present [OF s1' nm nz a(1)] IH have "present u st' s" by blast
      with IH a(2) nm that(1) show ?thesis by simp
    qed
    have d: "declared_only u names st \<longrightarrow> declared_only u names st'"
      using IH d1 by blast
    have ad: "added res' = added res"
      if pr: "\<forall>m'\<in>set (m # ms). \<forall>s'. get_prop m' ''name'' = Some (JStr s') \<longrightarrow> present u st s'"
    proof -
      from pr nm have "present u st s" by simp
      from ad1 [OF this] have "added res1 = added res" .
      moreover from pr
      have "\<forall>m'\<in>set ms. \<forall>s'. get_prop m' ''name'' = Some (JStr s') \<longrightarrow> present u st1 s'"
        using p1 by simp
      ultimately show ?thesis using IH by simp
    qed
    from IH c1 e1 e2 u p ok d ad show ?thesis by auto
  qed
qed

section \<open>The removal loop\<close>

lemma new_calls_append: "calls st' = calls st @ cs \<Longrightarrow> new_calls st st' = cs"
  by (simp add: new_calls_def)

lemma new_errors_append:
  "result.errors res' = result.errors res @ es \<Longrightarrow> new_errors res res' = es"
  by (simp add: new_errors_def)

lemma removal_tasks_refl: "removal_tasks st st"
  by (simp add: removal_tasks_def)

lemma removal_tasks_trans:
  assumes "removal_tasks st st1" "removal_tasks st1 st'"
  shows "removal_tasks st st'"
proof -
  from assms(1) obtain c1 where c1: "calls st1 = calls st @ c1" "\<forall>i. TaskStart i \<notin> set c1"
    "\<forall>i. i \<in> dom (monitorList st) \<and> i \<notin> dom (monitorList st1) \<longrightarrow> TaskStop i \<in> set c1"
    by (auto simp: removal_tasks_def)
  from assms(2) obtain c2 where c2: "calls st' = calls st1 @ c2" "\<forall>i. TaskStart i \<notin> set c2"
    "\<forall>i. i \<in> dom (monitorList st1) \<and> i \<notin> dom (monitorList st') \<longrightarrow> TaskStop i \<in> set c2"
    by (auto simp: removal_tasks_def)
  have "calls st' = calls st @ (c1 @ c2) \<and> (\<forall>i. TaskStart i \<notin> set (c1 @ c2)) \<and>
        (\<forall>i. i \<in> dom (monitorList st) \<and> i \<notin> dom (monitorList st') \<longrightarrow> TaskStop i \<in> set (c1 @ c2))"
  proof (intro conjI allI impI)
    show "calls st' = calls st @ (c1 @ c2)" using c1(1) c2(1) by simp
    show "TaskStart i \<notin> set (c1 @ c2)" for i using c1(2) c2(2) by simp
    show "TaskStop i \<in> set (c1 @ c2)"
      if "i \<in> dom (monitorList st) \<and> i \<notin> dom (monitorList st')" for i
    proof (cases "i \<in> dom (monitorList st1)")
      case True
      with that c2(3) show ?thesis by simp
    next
      case False
      with that c1(3) show ?thesis by simp
    qed
  qed
  then have "\<exists>cs. calls st' = calls st @ cs \<and> (\<forall>i. TaskStart i \<notin> set cs) \<and>
        (\<forall>i. i \<in> dom (monitorList st) \<and> i \<notin> dom (monitorList st') \<longrightarrow> TaskStop i \<in> set cs)"
    by blast
  moreover have "leaked st' = leaked st \<and> configFilePath st' = configFilePath st \<and>
      next_id st' = next_id st \<and>
      (\<forall>i. monitorList st i = None \<longrightarrow> monitorList st' i = None) \<and>
      row_id ` set (rows st') \<subseteq> row_id ` set (rows st) \<and> set (rows st') \<subseteq> set (rows st)"
    using assms unfolding removal_tasks_def by (intro conjI) (simp, simp, simp, simp, blast, blast)
  ultimately show ?thesis unfolding removal_tasks_def by blast
qed

lemma remove_monitor_tasks:
  assumes "remove_monitor co server names ex (st, res) = (st', res')"
  shows "removal_tasks st st'"
proof -
  have "\<exists>cs. calls st' = calls st @ cs \<and> (\<forall>i. TaskStart i \<notin> set cs) \<and>
        (\<forall>i. i \<in> dom (monitorList st) \<and> i \<notin> dom (monitorList st') \<longrightarrow> TaskStop i \<in> set cs)"
    using assms
    by (auto simp: remove_monitor_def Let_def stop_task_def unregister_task_def R_trash_def
        log_call_def split: if_splits option.splits)
  moreover have "leaked st' = leaked st \<and> configFilePath st' = configFilePath st \<and>
      next_id st' = next_id st \<and>
      (\<forall>i. monitorList st i = None \<longrightarrow> monitorList st' i = None) \<and>
      row_id ` set (rows st') \<subseteq> row_id ` set (rows st) \<and> set (rows st') \<subseteq> set (rows st)"
    using assms
    by (auto simp: remove_monitor_def Let_def stop_task_def unregister_task_def R_trash_def
        log_call_def split: if_splits option.splits)
  ultimately show ?thesis unfolding removal_tasks_def by blast
qed

lemma remove_monitor_cases:
  assumes "remove_monitor co server names ex (st, res) = (st', res')"
  shows "(\<not> undeclared names ex \<and> st' = st \<and> res' = res)
       \<or> (undeclared names ex \<and> rows st' = rows st \<and> removal_failed ex res res' \<and>
            \<not> removals_succeed co server [ex])
       \<or> (undeclared names ex \<and> gone st st' ex \<and> res' = res\<lparr>removed := removed res + 1\<rparr>)"
  using assms
  by (auto simp: remove_monitor_def undeclared_def removal_failed_def R_trash_def Let_def
      stop_task_def unregister_task_def log_call_def gone_def new_calls_def removals_succeed_def
      split: if_splits option.splits)

lemma removal_tasks_calls:
  assumes "removal_tasks st st1" "removal_tasks st1 st'"
  shows "calls st1 = calls st @ new_calls st st1 \<and> calls st' = calls st1 @ new_calls st1 st' \<and>
         new_calls st st' = new_calls st st1 @ new_calls st1 st'"
proof -
  from assms(1) obtain c1 where c1: "calls st1 = calls st @ c1"
    by (auto simp: removal_tasks_def)
  from assms(2) obtain c2 where c2: "calls st' = calls st1 @ c2"
    by (auto simp: removal_tasks_def)
  show ?thesis using c1 c2 by (simp add: new_calls_def)
qed

lemma gone_later:
  assumes a: "removal_tasks st st1" and b: "removal_tasks st1 st'" and g: "gone st st1 ex"
  shows "gone st st' ex"
proof -
  note c = removal_tasks_calls [OF a b]
  from b have r: "row_id ` set (rows st') \<subseteq> row_id ` set (rows st1)"
    and m: "\<forall>i. monitorList st1 i = None \<longrightarrow> monitorList st' i = None"
    by (simp_all add: removal_tasks_def)
  from g have g1: "row_id ex \<notin> row_id ` set (rows st1)" "monitorList st1 (row_id ex) = None"
    "DbTrash (row_id ex) \<in> set (new_calls st st1)"
    "row_id ex \<in> dom (monitorList st) \<longrightarrow> TaskStop (row_id ex) \<in> set (new_calls st st1)"
    by (simp_all add: gone_def)
  show ?thesis
    unfolding gone_def using r m g1 c by (intro conjI) (blast, simp, simp, simp)
qed

lemma gone_earlier:
  assumes a: "removal_tasks st st1" and b: "removal_tasks st1 st'" and g: "gone st1 st' ex"
  shows "gone st st' ex"
proof -
  note c = removal_tasks_calls [OF a b]
  from a obtain c1 where c1: "calls st1 = calls st @ c1"
    "\<forall>i. i \<in> dom (monitorList st) \<and> i \<notin> dom (monitorList st1) \<longrightarrow> TaskStop i \<in> set c1"
    by (auto simp: removal_tasks_def)
  then have n1: "new_calls st st1 = c1" by (simp add: new_calls_def)
  from g have g1: "row_id ex \<notin> row_id ` set (rows st')" "monitorList st' (row_id ex) = None"
    "DbTrash (row_id ex) \<in> set (new_calls st1 st')"
    "row_id ex \<in> dom (monitorList st1) \<longrightarrow> TaskStop (row_id ex) \<in> set (new_calls st1 st')"
    by (simp_all add: gone_def)
  have "TaskStop (row_id ex) \<in> set (new_calls st st')" if "row_id ex \<in> dom (monitorList st)"
  proof (cases "row_id ex \<in> dom (monitorList st1)")
    case True
    with g1(4) c show ?thesis by simp
  next
    case False
    with that c1(2) n1 c show ?thesis by simp
  qed
  with g1 c show ?thesis unfolding gone_def by simp
qed

lemma removal_failed_fields:
  "removal_failed ex res res' \<Longrightarrow> added res' = added res \<and> updated res' = updated res \<and>
     removed res' = removed res \<and>
     (\<exists>msg. result.errors res' = result.errors res @ [ErrorRemoving (row_name_text ex) msg])"
  by (auto simp: removal_failed_def removing_failed_def)

lemma removals_succeed_Cons:
  "removals_succeed co server (ex # exs) \<Longrightarrow>
     removals_succeed co server [ex] \<and> removals_succeed co server exs"
  by (auto simp: removals_succeed_def)

lemma remove_loop:
  assumes "remove_monitors co server names exs (st, res) = (st', res')"
  shows "added res' = added res \<and> updated res' = updated res \<and> removal_tasks st st' \<and>
         result.errors res' = result.errors res @ new_errors res res' \<and>
         (\<forall>e\<in>set (new_errors res res'). is_removal_error e) \<and>
         removed res' + length (new_errors res res')
           = removed res + length (filter (undeclared names) exs) \<and>
         (\<forall>ex\<in>set exs. undeclared names ex \<longrightarrow>
            gone st st' ex \<or>
            (\<exists>msg. ErrorRemoving (row_name_text ex) msg \<in> set (new_errors res res'))) \<and>
         ((\<forall>ex\<in>set exs. \<not> undeclared names ex) \<longrightarrow> st' = st \<and> res' = res) \<and>
         (removals_succeed co server (filter (undeclared names) exs)
            \<longrightarrow> new_errors res res' = [])"
  using assms
proof (induction exs arbitrary: st res)
  case Nil
  then show ?case by (simp add: remove_monitors_def removal_tasks_refl new_errors_def)
next
  case (Cons ex exs)
  obtain st1 res1 where s1: "remove_monitor co server names ex (st, res) = (st1, res1)"
    by (cases "remove_monitor co server names ex (st, res)")
  from Cons.prems s1 have rest: "remove_monitors co server names exs (st1, res1) = (st', res')"
    by (simp add: remove_monitors_def)
  note IH = Cons.IH [OF rest]
  note t1 = remove_monitor_tasks [OF s1]
  from IH have t2: "removal_tasks st1 st'" by simp
  note t = removal_tasks_trans [OF t1 t2]
  let ?es2 = "new_errors res1 res'"
  from IH have e2: "result.errors res' = result.errors res1 @ ?es2"
    and r2: "\<forall>e\<in>set ?es2. is_removal_error e"
    and c2: "removed res' + length ?es2 = removed res1 + length (filter (undeclared names) exs)"
    and o2: "\<forall>ex\<in>set exs. undeclared names ex \<longrightarrow>
            gone st1 st' ex \<or> (\<exists>msg. ErrorRemoving (row_name_text ex) msg \<in> set ?es2)"
    and s2: "removals_succeed co server (filter (undeclared names) exs) \<longrightarrow> ?es2 = []"
    by simp_all
  have o2': "\<forall>ex\<in>set exs. undeclared names ex \<longrightarrow>
            gone st st' ex \<or> (\<exists>msg. ErrorRemoving (row_name_text ex) msg \<in> set ?es2)"
    using o2 gone_earlier [OF t1 t2] by blast
  from remove_monitor_cases [OF s1] consider
    (skip) "\<not> undeclared names ex" "st1 = st" "res1 = res"
  | (failed) "undeclared names ex" "removal_failed ex res res1" "\<not> removals_succeed co server [ex]"
  | (removed) "undeclared names ex" "gone st st1 ex" "res1 = res\<lparr>removed := removed res + 1\<rparr>"
    by blast
  then show ?case
  proof cases
    case skip
    with IH show ?thesis by simp
  next
    case failed
    from removal_failed_fields [OF failed(2)] obtain msg where
      f: "added res1 = added res" "updated res1 = updated res" "removed res1 = removed res"
         "result.errors res1 = result.errors res @ [ErrorRemoving (row_name_text ex) msg]"
      by blast
    have e: "result.errors res' = result.errors res @ (ErrorRemoving (row_name_text ex) msg # ?es2)"
      using e2 f(4) by simp
    note n = new_errors_append [OF e]
    have "added res' = added res" "updated res' = updated res" using IH f by simp_all
    moreover have "result.errors res' = result.errors res @ new_errors res res'"
      using e n by simp
    moreover have "\<forall>e\<in>set (new_errors res res'). is_removal_error e" using r2 n by simp
    moreover have "removed res' + length (new_errors res res')
           = removed res + length (filter (undeclared names) (ex # exs))"
      using c2 f(3) failed(1) n by simp
    moreover have "\<forall>x\<in>set (ex # exs). undeclared names x \<longrightarrow>
            gone st st' x \<or> (\<exists>msg. ErrorRemoving (row_name_text x) msg \<in> set (new_errors res res'))"
      using o2' n by auto
    moreover have "(\<forall>x\<in>set (ex # exs). \<not> undeclared names x) \<longrightarrow> st' = st \<and> res' = res"
      using failed(1) by simp
    moreover have "removals_succeed co server (filter (undeclared names) (ex # exs))
            \<longrightarrow> new_errors res res' = []"
      using failed(1,3) by (auto dest: removals_succeed_Cons)
    ultimately show ?thesis using t by blast
  next
    case removed
    have e: "result.errors res' = result.errors res @ ?es2" using e2 removed(3) by simp
    note n = new_errors_append [OF e]
    have "added res' = added res" "updated res' = updated res" using IH removed(3) by simp_all
    moreover have "result.errors res' = result.errors res @ new_errors res res'"
      using e n by simp
    moreover have "\<forall>e\<in>set (new_errors res res'). is_removal_error e" using r2 n by simp
    moreover have "removed res' + length (new_errors res res')
           = removed res + length (filter (undeclared names) (ex # exs))"
      using c2 removed(1,3) n by simp
    moreover have "\<forall>x\<in>set (ex # exs). undeclared names x \<longrightarrow>
            gone st st' x \<or> (\<exists>msg. ErrorRemoving (row_name_text x) msg \<in> set (new_errors res res'))"
      using o2' n gone_later [OF t1 t2 removed(2)] by auto
    moreover have "(\<forall>x\<in>set (ex # exs). \<not> undeclared names x) \<longrightarrow> st' = st \<and> res' = res"
      using removed(1) by simp
    moreover have "removals_succeed co server (filter (undeclared names) (ex # exs))
            \<longrightarrow> new_errors res res' = []"
      using s2 removed(1) n by (auto dest: removals_succeed_Cons)
    ultimately show ?thesis using t by blast
  qed
qed

section \<open>The course of a cycle\<close>

lemma getConfigFilePath_None:
  "getConfigFilePath fs st = (None, st1) \<Longrightarrow> st1 = st"
  by (cases "configFilePath st"; cases "MONITORS_YAML_PATH fs")
     (auto simp: getConfigFilePath_def split: if_splits)

lemma readConfigFile_state:
  "readConfigFile fs st = (c, st1) \<Longrightarrow> st1 = st \<or> (\<exists>p. st1 = st\<lparr>configFilePath := Some p\<rparr>)"
  by (cases "getConfigFilePath fs st")
     (auto simp: readConfigFile_def dest: getConfigFilePath_Some getConfigFilePath_None
       split: option.splits if_splits sum.splits)

lemma readConfigFile_rows:
  "readConfigFile fs st = (c, st1) \<Longrightarrow>
     rows st1 = rows st \<and> next_id st1 = next_id st \<and> monitorList st1 = monitorList st \<and>
     leaked st1 = leaked st \<and> calls st1 = calls st"
  using readConfigFile_state [of fs st c st1] by auto

lemma getConfigFilePath_stable:
  assumes "getConfigFilePath fs st = (p, st1)" "configFilePath st2 = configFilePath st1"
  shows "getConfigFilePath fs st2 = (p, st2)"
proof (cases p)
  case None
  with assms(1) have "st1 = st" by (simp add: getConfigFilePath_None)
  with assms None show ?thesis
    by (auto simp: getConfigFilePath_def split: if_splits)
next
  case (Some q)
  with assms(1) have "q \<noteq> []" "st1 = st\<lparr>configFilePath := Some q\<rparr>"
    using getConfigFilePath_Some [of fs st q st1] by simp_all
  with assms(2) Some show ?thesis by (simp add: getConfigFilePath_def)
qed

lemma readConfigFile_stable:
  assumes "readConfigFile fs st = (c, st1)" "configFilePath st2 = configFilePath st1"
  shows "readConfigFile fs st2 = (c, st2)"
proof -
  obtain p sta where g: "getConfigFilePath fs st = (p, sta)" by (cases "getConfigFilePath fs st")
  with assms(1) have "sta = st1"
    by (auto simp: readConfigFile_def split: option.splits if_splits sum.splits)
  with g assms(2) have "getConfigFilePath fs st2 = (p, st2)"
    by (auto intro: getConfigFilePath_stable)
  with g assms(1) show ?thesis
    by (auto simp: readConfigFile_def split: option.splits if_splits sum.splits)
qed

lemma validate_from_mono:
  "validate_from rt ms i acc = Inr errs \<Longrightarrow> \<exists>es. errs = acc @ es"
proof (induction ms arbitrary: i acc)
  case Nil
  then show ?case by simp
next
  case (Cons m ms)
  from Cons.prems obtain acc' where r: "validate_from rt ms (Suc i) acc' = Inr errs"
    and a: "\<exists>es. acc' = acc @ es"
    by (auto split: sum.splits if_splits)
  from Cons.IH [OF r] a show ?case by auto
qed

lemma validate_from_valid:
  "validate_from rt ms i acc = Inr [] \<Longrightarrow>
     \<forall>m\<in>set ms. \<exists>v. get_prop m ''name'' = Some v \<and> truthy v"
proof (induction ms arbitrary: i acc)
  case Nil
  then show ?case by simp
next
  case (Cons m ms)
  from Cons.prems obtain va where va: "validateMonitorConfig rt m i = Inr va"
    and r: "validate_from rt ms (Suc i) (if \<not> valid va then acc @ validation.errors va else acc) = Inr []"
    by (auto split: sum.splits)
  from validate_from_mono [OF r] have e: "(if \<not> valid va then acc @ validation.errors va else acc) = []"
    by simp
  have "valid va"
  proof (rule ccontr)
    assume n: "\<not> valid va"
    with validate_Inr [OF va] have "validation.errors va \<noteq> []" by auto
    with e n show False by simp
  qed
  from valid_is_mapping [OF va this] obtain kvs where
    k: "m = JObj kvs" "\<not> falsy (map_of kvs ''name'')" by blast
  have "\<exists>v. get_prop m ''name'' = Some v \<and> truthy v"
    using k by (cases "map_of kvs ''name''") auto
  with Cons.IH [OF r] show ?case by simp
qed

lemma sync_run:
  assumes rc: "readConfigFile fs st = (Some config, st1)"
    and mo: "monitors_of config = JArr ms"
  shows "(validate_from rt ms 0 [] \<noteq> Inr [] \<and>
          snd (syncConfigMonitors rt co fs u server st) = st1)
       \<or> (\<exists>m. validate_from rt ms 0 [] = Inr [] \<and> find_throws co = Some m \<and>
              syncConfigMonitors rt co fs u server st = (Inl (Error m), log_call DbFind st1))
       \<or> (\<exists>x st3 res3. validate_from rt ms 0 [] = Inr [] \<and> find_throws co = None \<and>
              apply_monitors rt co u server ms (log_call DbFind st1, no_result) = (x, st3, res3) \<and>
              ((\<exists>e. x = Some e \<and> syncConfigMonitors rt co fs u server st = (Inl e, st3))
               \<or> (\<exists>st' r. x = None \<and>
                     remove_monitors co server (map (\<lambda>m. get_prop m ''name'') ms)
                       (R_find u st1) (st3, res3) = (st', r) \<and>
                     syncConfigMonitors rt co fs u server st = (Inr r, st'))))"
proof (cases "validate_from rt ms 0 []")
  case (Inl e)
  with rc mo show ?thesis by (simp add: syncConfigMonitors_def)
next
  case (Inr errs)
  show ?thesis
  proof (cases "errs = []")
    case False
    with rc mo Inr show ?thesis by (simp add: syncConfigMonitors_def)
  next
    case True
    show ?thesis
    proof (cases "find_throws co")
      case (Some m)
      with rc mo Inr True show ?thesis by (simp add: syncConfigMonitors_def)
    next
      case None
      obtain x st3 res3 where
        ap: "apply_monitors rt co u server ms (log_call DbFind st1, no_result) = (x, st3, res3)"
        by (cases "apply_monitors rt co u server ms (log_call DbFind st1, no_result)")
      show ?thesis
      proof (cases x)
        case (Some e)
        with rc mo Inr True None ap show ?thesis by (simp add: syncConfigMonitors_def)
      next
        case x: None
        obtain st' r where rm: "remove_monitors co server (map (\<lambda>m. get_prop m ''name'') ms)
                       (R_find u st1) (st3, res3) = (st', r)"
          by (cases "remove_monitors co server (map (\<lambda>m. get_prop m ''name'') ms)
                       (R_find u st1) (st3, res3)")
        with rc mo Inr True None ap x show ?thesis by (simp add: syncConfigMonitors_def)
      qed
    qed
  qed
qed

lemma sync_Inr_run:
  assumes rc: "readConfigFile fs st = (Some config, st1)"
    and mo: "monitors_of config = JArr ms"
    and va: "validate_from rt ms 0 [] = Inr []"
    and sy: "syncConfigMonitors rt co fs u server st = (Inr r, st')"
  shows "find_throws co = None \<and>
         (\<exists>st3 res3. apply_monitors rt co u server ms (log_call DbFind st1, no_result)
                        = (None, st3, res3) \<and>
            remove_monitors co server (map (\<lambda>m. get_prop m ''name'') ms)
              (R_find u st1) (st3, res3) = (st', r))"
  using sync_run [OF rc mo, of rt co u server] va sy by auto

lemma process_monitor_tasks:
  assumes "process_monitor rt co u server m (st, res) = (x, st', res')"
  shows "(\<exists>i. step_tasks rt u server m st st' i) \<and> removed res' = removed res \<and>
         (\<exists>es. result.errors res' = result.errors res @ es \<and>
               (\<forall>e\<in>set es. \<not> is_removal_error e))"
proof -
  from process_monitor_try [OF assms] obtain y res2 where
    t: "try_process rt co u server m (st, res) = (y, st', res2)"
    and y: "if y = None then x = None \<and> res' = res2 else step_failed x res2 res'"
    by blast
  from y have sd: "step_done x res2 res'" by (auto simp: step_done_def split: if_splits)
  from try_process_cases [OF t] consider
    (early) msg where "y = Some msg" "res2 = res" "quiet st st'"
  | (late) b st3 where "stored rt co u m st b st3" "res2 = counted co u m st res"
      "(\<exists>e. render rt (props b ''name'') = Inl e \<and> y = Some (message e) \<and> st' = st3)
              \<or> start_if_active co server b st3 = (y, st')"
    by blast
  then show ?thesis
  proof cases
    case early
    from quiet_step_tasks [OF early(3)] step_done_fields [OF sd] early(2) show ?thesis
      by blast
  next
    case (late b st3)
    from stored_step_tasks [OF late(1,3)] have "\<exists>i. step_tasks rt u server m st st' i" by blast
    moreover have "removed res2 = removed res" "result.errors res2 = result.errors res"
      using late(2) by (simp_all add: counted_def)
    ultimately show ?thesis using step_done_fields [OF sd] by simp
  qed
qed

lemma apply_tasks:
  assumes "apply_monitors rt co u server ms (st, res) = (x, st', res')"
  shows "leaked st' = leaked st \<and> configFilePath st' = configFilePath st \<and>
         dom (monitorList st) \<subseteq> dom (monitorList st') \<and> removed res' = removed res \<and>
         (\<exists>cs. calls st' = calls st @ cs) \<and>
         (\<exists>es. result.errors res' = result.errors res @ es \<and>
               (\<forall>e\<in>set es. \<not> is_removal_error e))"
  using assms
proof (induction ms arbitrary: st res)
  case Nil
  then show ?case by simp
next
  case (Cons m ms)
  obtain x1 st1 res1 where s1: "process_monitor rt co u server m (st, res) = (x1, st1, res1)"
    by (cases "process_monitor rt co u server m (st, res)")
  from process_monitor_tasks [OF s1] obtain i es1 where
    t1: "step_tasks rt u server m st st1 i" and r1: "removed res1 = removed res"
    and e1: "result.errors res1 = result.errors res @ es1" "\<forall>e\<in>set es1. \<not> is_removal_error e"
    by blast
  from t1 obtain c1 where c1: "leaked st1 = leaked st" "configFilePath st1 = configFilePath st"
    "dom (monitorList st) \<subseteq> dom (monitorList st1)" "calls st1 = calls st @ c1"
    unfolding step_tasks_def by auto
  show ?case
  proof (cases x1)
    case (Some e)
    with Cons.prems s1 have "st' = st1" "res' = res1" by simp_all
    with c1 r1 e1 show ?thesis by simp
  next
    case None
    with Cons.prems s1 have rest: "apply_monitors rt co u server ms (st1, res1) = (x, st', res')"
      by simp
    from Cons.IH [OF rest] obtain c2 es2 where
      a: "leaked st' = leaked st1" "configFilePath st' = configFilePath st1"
        "dom (monitorList st1) \<subseteq> dom (monitorList st')" "removed res' = removed res1"
        "calls st' = calls st1 @ c2" "result.errors res' = result.errors res1 @ es2"
        "\<forall>e\<in>set es2. \<not> is_removal_error e"
      by blast
    have "calls st' = calls st @ (c1 @ c2)" using a(5) c1(4) by simp
    moreover have "result.errors res' = result.errors res @ (es1 @ es2) \<and>
                   (\<forall>e\<in>set (es1 @ es2). \<not> is_removal_error e)"
      using a(6,7) e1 by auto
    ultimately show ?thesis using a(1-4) c1(1-3) r1 by (intro conjI) (simp, simp, blast, simp, blast, blast)
  qed
qed

section \<open>An empty declared set\<close>

lemma readConfigFile_empty:
  assumes "getConfigFilePath fs st = (Some p, st1)" "existsSync fs p" "load fs p = Inr doc"
    "empty_source doc"
  shows "readConfigFile fs st = (Some no_monitors, st1)"
  using assms by (auto simp: readConfigFile_def empty_source_def split: option.splits)

lemma getConfigFilePath_fs_with:
  "configFilePath st = None \<Longrightarrow>
   getConfigFilePath (fs_with doc) st
     = (Some ''config/monitors.yaml'', st\<lparr>configFilePath := Some ''config/monitors.yaml''\<rparr>)"
  by (simp add: getConfigFilePath_def fs_with_def)

text \<open>
Claim C9, as amended. Let the source exist and parse to an empty document or to one without a
\<^verbatim>\<open>monitors\<close> key. Then \<open>readConfigFile\<close> returns a configuration with an empty monitor list
and no error. When \<^verbatim>\<open>R.find\<close> throws, \<open>syncConfigMonitors\<close> throws that error and has made no
other call. Otherwise it returns a result with added = 0 and updated = 0 in which every
config-managed record of the owner is accounted for once: \<open>removed\<close> plus the number of errors
is the number of those records. When no removal throws (\<^verbatim>\<open>server\<close> is not null, no stop of a
task and no \<^verbatim>\<open>R.trash\<close> throws), \<open>removed\<close> is that number, the error list is empty and no
config-managed record of the owner is left.
\<close>

theorem empty_source_removes_all:
  assumes src: "getConfigFilePath fs st = (Some p, st1)" "existsSync fs p" "load fs p = Inr doc"
    and emp: "empty_source doc"
  shows "readConfigFile fs st = (Some no_monitors, st1) \<and> monitors_of no_monitors = JArr [] \<and>
         (case find_throws co of
            Some m \<Rightarrow>
              syncConfigMonitors rt co fs u server st = (Inl (Error m), log_call DbFind st1)
          | None \<Rightarrow>
              (\<exists>r st'. syncConfigMonitors rt co fs u server st = (Inr r, st') \<and>
                 added r = 0 \<and> updated r = 0 \<and>
                 removed r + length (result.errors r) = length (R_find u st) \<and>
                 (removals_succeed co server (R_find u st) \<longrightarrow>
                    removed r = length (R_find u st) \<and> result.errors r = [] \<and>
                    R_find u st' = [])))"
proof -
  have rc: "readConfigFile fs st = (Some no_monitors, st1)"
    by (rule readConfigFile_empty [OF src emp])
  have mo: "monitors_of no_monitors = JArr []"
    by (simp add: monitors_of_def no_monitors_def)
  from readConfigFile_rows [OF rc] have un: "rows st1 = rows st" by simp
  then have fe: "R_find u st1 = R_find u st" by (simp add: R_find_def)
  have va: "validate_from rt [] 0 [] = Inr []" by simp
  have thrown: "syncConfigMonitors rt co fs u server st = (Inl (Error m), log_call DbFind st1)"
    if "find_throws co = Some m" for m
    using sync_run [OF rc mo, of rt co u server] that va by auto
  have returned: "\<exists>r st'. syncConfigMonitors rt co fs u server st = (Inr r, st') \<and>
                 added r = 0 \<and> updated r = 0 \<and>
                 removed r + length (result.errors r) = length (R_find u st) \<and>
                 (removals_succeed co server (R_find u st) \<longrightarrow>
                    removed r = length (R_find u st) \<and> result.errors r = [] \<and>
                    R_find u st' = [])"
    if fnd: "find_throws co = None"
  proof -
    let ?st2 = "log_call DbFind st1"
    obtain st' r where lp: "remove_monitors co server [] (R_find u st) (?st2, no_result) = (st', r)"
      by (cases "remove_monitors co server [] (R_find u st) (?st2, no_result)")
    have sy: "syncConfigMonitors rt co fs u server st = (Inr r, st')"
      using sync_run [OF rc mo, of rt co u server] fnd lp fe va by auto
    note R = remove_loop [OF lp]
    have all: "filter (undeclared []) (R_find u st) = R_find u st"
      by (simp add: undeclared_def)
    from R have e: "result.errors r = new_errors no_result r" by (simp add: no_result_def)
    from R have c: "added r = 0" "updated r = 0"
      "removed r + length (result.errors r) = length (R_find u st)"
      unfolding e by (simp_all add: no_result_def all)
    have ok: "removed r = length (R_find u st) \<and> result.errors r = [] \<and> R_find u st' = []"
      if s: "removals_succeed co server (R_find u st)"
    proof -
      from R s have e0: "result.errors r = []" unfolding e by (simp add: all)
      from R have sub: "set (rows st') \<subseteq> set (rows ?st2)" by (simp add: removal_tasks_def)
      have "\<not> is_managed u x" if x: "x \<in> set (rows st')" for x
      proof
        assume m: "is_managed u x"
        from x sub un have "x \<in> set (rows st)" by auto
        with m have in_find: "x \<in> set (R_find u st)" by (simp add: R_find_def)
        with R e0 e have "gone ?st2 st' x" by (auto simp: undeclared_def)
        with x show False by (auto simp: gone_def)
      qed
      then have "R_find u st' = []" by (auto simp: R_find_def filter_empty_conv)
      with e0 c show ?thesis by simp
    qed
    from sy c ok show ?thesis by blast
  qed
  show ?thesis
  proof (cases "find_throws co")
    case None
    with rc mo returned show ?thesis by simp
  next
    case (Some m)
    with rc mo thrown show ?thesis by simp
  qed
qed

text \<open>
Claim C9, as stated, fails: with an empty document and one config-managed record of the
owner, a cycle in which \<^verbatim>\<open>R.trash\<close> throws returns removed = 0, not 1; the failure is
caught and recorded, and the record stays.
\<close>

theorem empty_source_counterexample:
  "empty_source None \<and> length (R_find 1 st_one) = 1 \<and>
   fst (syncConfigMonitors rt_example co_trash_fails (fs_with None) 1 True st_one)
     = Inr \<lparr>added = 0, updated = 0, removed = 0,
            errors = [ErrorRemoving ''Old'' ''SQLITE_BUSY: database is locked'']\<rparr>"
  by (simp add: run_defs empty_source_def st_one_def row_old_def co_trash_fails_def
      no_monitors_def)

text \<open>
Witness of the amended claim C9: an empty document, one config-managed record with a running
task, collaborators that do not throw.
\<close>

theorem empty_source_removes_all_witness:
  "getConfigFilePath (fs_with None) st_one
     = (Some ''config/monitors.yaml'', st_one\<lparr>configFilePath := Some ''config/monitors.yaml''\<rparr>) \<and>
   existsSync (fs_with None) ''config/monitors.yaml'' \<and>
   load (fs_with None) ''config/monitors.yaml'' = Inr None \<and>
   empty_source None \<and> find_throws co_ok = None \<and>
   removals_succeed co_ok True (R_find 1 st_one) \<and> length (R_find 1 st_one) = 1 \<and>
   (\<exists>r st'. syncConfigMonitors rt_example co_ok (fs_with None) 1 True st_one = (Inr r, st') \<and>
      added r = 0 \<and> updated r = 0 \<and> removed r = 1 \<and> result.errors r = [] \<and> R_find 1 st' = [])"
proof -
  have a: "getConfigFilePath (fs_with None) st_one
     = (Some ''config/monitors.yaml'', st_one\<lparr>configFilePath := Some ''config/monitors.yaml''\<rparr>)"
    by (rule getConfigFilePath_fs_with) (simp add: st_one_def st_empty_def)
  have b: "existsSync (fs_with None) ''config/monitors.yaml''" by (simp add: fs_with_def)
  have c: "load (fs_with None) ''config/monitors.yaml'' = Inr None" by (simp add: fs_with_def)
  have d: "empty_source None" by (simp add: empty_source_def)
  have e: "find_throws co_ok = None" by (simp add: co_ok_def)
  have f: "removals_succeed co_ok True (R_find 1 st_one)"
    by (simp add: removals_succeed_def co_ok_def)
  have g: "length (R_find 1 st_one) = 1"
    by (simp add: R_find_def st_one_def row_old_def is_managed_def user_id_val_def)
  from empty_source_removes_all [OF a b c d, where co = co_ok and rt = rt_example and u = 1 and server = True] e f g
  have "\<exists>r st'. syncConfigMonitors rt_example co_ok (fs_with None) 1 True st_one = (Inr r, st') \<and>
      added r = 0 \<and> updated r = 0 \<and> removed r = 1 \<and> result.errors r = [] \<and> R_find 1 st' = []"
    by auto
  with a b c d e f g show ?thesis by blast
qed

end
